theory Spec2Isabelle
  imports Complex_Main "HOL-Library.Word" "HOL-Library.AList" "HOL-Library.Multiset"
begin

section \<open>Key prefixes (db.go)\<close>

text \<open>
  A Go string and a byte slice are sequences of bytes; an Isabelle \<open>char\<close> is one byte.
  A slice result that the source returns as \<open>nil\<close> is \<open>None\<close>.
\<close>

type_synonym bytes = "char list"
type_synonym prefix = "char list"

definition segmentPrefix :: prefix where "segmentPrefix = ''s:''"
definition treePrefix :: prefix where "treePrefix = ''t:''"
definition dictionaryPrefix :: prefix where "dictionaryPrefix = ''d:''"
definition dimensionPrefix :: prefix where "dimensionPrefix = ''i:''"

text \<open>\<open>func (p prefix) key(k string) []byte { return []byte(string(p) + k) }\<close>\<close>

definition key :: "prefix \<Rightarrow> bytes \<Rightarrow> bytes" where
  "key p k = p @ k"

text \<open>
  \<open>func (p prefix) trim(k []byte) ([]byte, bool)\<close>: the slice expression \<open>k[len(p):]\<close> is
  in range because it is evaluated only when \<open>len(k) > len(p)\<close>.
\<close>

definition trim :: "prefix \<Rightarrow> bytes \<Rightarrow> bytes option \<times> bool" where
  "trim p k = (if length k > length p then (Some (drop (length p) k), True) else (None, False))"

section \<open>Values shared by the model\<close>

text \<open>
  \<open>float64\<close>: a value is not-a-number, an infinity, or a finite value given by the rational
  it denotes. The comparisons follow IEEE 754: every comparison with \<open>NaN\<close> is false.
  Rounding is not modelled: where the source divides or converts, the operation is a
  parameter of the model.
\<close>

datatype float64 = NaN | NegInf | Finite rat | PosInf

fun f64_less :: "float64 \<Rightarrow> float64 \<Rightarrow> bool" where
  "f64_less NaN _ = False"
| "f64_less _ NaN = False"
| "f64_less NegInf NegInf = False"
| "f64_less NegInf _ = True"
| "f64_less (Finite a) (Finite b) = (a < b)"
| "f64_less (Finite a) PosInf = True"
| "f64_less (Finite a) NegInf = False"
| "f64_less PosInf _ = False"

fun f64_ge :: "float64 \<Rightarrow> float64 \<Rightarrow> bool" where
  "f64_ge NaN _ = False"
| "f64_ge _ NaN = False"
| "f64_ge a b = (\<not> f64_less a b)"

text \<open>
  Modelled from the spec: \<open>bytesize.ByteSize\<close> is a size in bytes; its declaration is not
  among the sources. The sources convert \<open>int64\<close> values to it and compare it with \<open>0\<close>, so
  it is taken as a signed 64-bit integer: \<open>+\<close> and \<open>-\<close> wrap around, \<open><s\<close> compares signed.
\<close>

type_synonym int64 = "64 word"
type_synonym ByteSize = "64 word"

text \<open>An \<open>error\<close> value of the engine; Go's \<open>nil\<close> error is \<open>None\<close>.\<close>

datatype go_error = ErrNoRewrite | ErrOther string

datatype log_entry =
    Debug string
  | Warn string go_error
  | Error string go_error

section \<open>The database wrapper (db.go)\<close>

text \<open>
  The sources give db.go twice. The first listing has \<open>openBadgerDB\<close> and \<open>newDB\<close>; the
  second has \<open>newBadger\<close>, \<open>close\<close>, \<open>calculateDBSize\<close> and the fields \<open>lastGC\<close> and
  \<open>gcCount\<close>, and is the one whose functions storage.go calls. \<open>prefix\<close>, \<open>size\<close> and all
  of \<open>runGC\<close> but one \<open>return\<close> are the same in both. The record \<open>db\<close> is that of the
  second listing.
\<close>

text \<open>
  The engine handle \<open>*badger.DB\<close> is an external collaborator. Its answers are inputs of
  the model: \<open>DB_Flatten\<close> is what \<open>Flatten(2)\<close> returns, \<open>DB_RunValueLogGC i r\<close> is what
  the \<open>i\<close>-th call of \<open>RunValueLogGC\<close> on this handle returns when called with discard
  ratio \<open>r\<close>, \<open>DB_gc_calls\<close> counts the calls made so far, \<open>DB_Size\<close> is the pair
  \<open>(lsm, vlog)\<close> of \<open>Size()\<close>, and \<open>DB_Close\<close> is what \<open>Close()\<close> returns.
\<close>

record engine =
  DB_Flatten :: "go_error option"
  DB_RunValueLogGC :: "nat \<Rightarrow> float64 \<Rightarrow> go_error option"
  DB_gc_calls :: nat
  DB_Size :: "int64 \<times> int64"
  DB_Close :: "go_error option"

text \<open>The cache front-end \<open>*cache.Cache\<close>, as \<open>cache.New\<close> builds it, known
  by the prefix it was built with.\<close>

datatype cache = NewCache (cache_prefix: string)

record db =
  name :: string
  DB :: engine
  Cache :: "cache option"
  lastGC :: ByteSize
  gcCount :: nat

text \<open>\<open>func (d *db) size() bytesize.ByteSize\<close>\<close>

definition size_db :: "db \<Rightarrow> ByteSize" where
  "size_db d = (case DB_Size (DB d) of (lsm, vlog) \<Rightarrow> lsm + vlog)"

text \<open>
  \<open>runGC\<close>, the loop \<open>for { switch err := d.RunValueLogGC(discardRatio); err {...} }\<close>.
  The loop has no bound of its own: it runs for as long as the engine answers \<open>nil\<close>, so
  it is a partial function and \<open>None\<close> stands for a loop that never returns. The result
  is the returned \<open>reclaimed\<close>, the number of engine calls made, and the log.

  \<open>runGC_first_loop\<close> is the loop of the first listing of db.go (it returns \<open>false\<close> when
  the engine reports \<open>ErrNoRewrite\<close>), \<open>runGC_loop\<close> that of the second listing (it
  returns \<open>reclaimed\<close>).
\<close>

partial_function (option) runGC_first_loop ::
  "engine \<Rightarrow> float64 \<Rightarrow> nat \<Rightarrow> bool \<Rightarrow> log_entry list \<Rightarrow> (bool \<times> nat \<times> log_entry list) option"
where
  "runGC_first_loop e discardRatio i reclaimed lg =
     (case DB_RunValueLogGC e i discardRatio of
        None \<Rightarrow> runGC_first_loop e discardRatio (Suc i) True lg
      | Some err \<Rightarrow>
          (case err of
             ErrNoRewrite \<Rightarrow> Some (False, Suc i, lg)
           | ErrOther x \<Rightarrow> Some (False, Suc i, lg @ [Warn ''failed to run GC'' err])))"

partial_function (option) runGC_loop ::
  "engine \<Rightarrow> float64 \<Rightarrow> nat \<Rightarrow> bool \<Rightarrow> log_entry list \<Rightarrow> (bool \<times> nat \<times> log_entry list) option"
where
  "runGC_loop e discardRatio i reclaimed lg =
     (case DB_RunValueLogGC e i discardRatio of
        None \<Rightarrow> runGC_loop e discardRatio (Suc i) True lg
      | Some err \<Rightarrow>
          (case err of
             ErrNoRewrite \<Rightarrow> Some (reclaimed, Suc i, lg)
           | ErrOther x \<Rightarrow> Some (False, Suc i, lg @ [Warn ''failed to run GC'' err])))"

text \<open>The part of \<open>runGC\<close> before the loop: the debug line and \<open>Flatten(2)\<close>.\<close>

definition runGC_flatten :: "engine \<Rightarrow> log_entry list" where
  "runGC_flatten e =
     Debug ''starting badger garbage collection'' #
     (case DB_Flatten e of
        None \<Rightarrow> []
      | Some err \<Rightarrow> [Error ''failed to flatten database'' err])"

text \<open>
  \<open>func (d *db) runGC(discardRatio float64) (reclaimed bool)\<close>, first and second listing.
  The result is \<open>reclaimed\<close>, the database with the engine's call counter advanced, and
  the log.
\<close>

definition runGC_first :: "db \<Rightarrow> float64 \<Rightarrow> (bool \<times> db \<times> log_entry list) option" where
  "runGC_first d discardRatio =
     (case runGC_first_loop (DB d) discardRatio (DB_gc_calls (DB d)) False (runGC_flatten (DB d)) of
        None \<Rightarrow> None
      | Some (reclaimed, n, lg) \<Rightarrow> Some (reclaimed, d\<lparr>DB := (DB d)\<lparr>DB_gc_calls := n\<rparr>\<rparr>, lg))"

definition runGC :: "db \<Rightarrow> float64 \<Rightarrow> (bool \<times> db \<times> log_entry list) option" where
  "runGC d discardRatio =
     (case runGC_loop (DB d) discardRatio (DB_gc_calls (DB d)) False (runGC_flatten (DB d)) of
        None \<Rightarrow> None
      | Some (reclaimed, n, lg) \<Rightarrow> Some (reclaimed, d\<lparr>DB := (DB d)\<lparr>DB_gc_calls := n\<rparr>\<rparr>, lg))"

text \<open>
  \<open>filepath.Ext\<close> of the Go library, for the separator \<open>/\<close>: the suffix of the last path
  element that starts at its last dot, or the empty string when that element has no dot.
\<close>

definition Ext :: "string \<Rightarrow> string" where
  "Ext path =
     (let r = takeWhile (\<lambda>c. c \<noteq> CHR ''/'') (rev path)
      in if CHR ''.'' \<in> set r then CHR ''.'' # rev (takeWhile (\<lambda>c. c \<noteq> CHR ''.'') r) else [])"

text \<open>
  \<open>filepath.Walk\<close> hands the callback one entry after the other: either an error, or the
  path and the file info, of which the callback reads \<open>info.Size()\<close>. The callback of
  \<open>calculateDBSize\<close> returns the error it is given, which ends the walk, and the error
  that \<open>Walk\<close> then returns is dropped (\<open>_ = filepath.Walk(...)\<close>). So a directory as
  seen by one walk is the list of the entries in the order of the visit.
\<close>

datatype walk_entry = WalkErr string | WalkInfo string int64

fun calculateDBSize_walk :: "walk_entry list \<Rightarrow> int64 \<Rightarrow> int64" where
  "calculateDBSize_walk [] sz = sz"
| "calculateDBSize_walk (WalkErr err # rest) sz = sz"
| "calculateDBSize_walk (WalkInfo path n # rest) sz =
     calculateDBSize_walk rest
       (if Ext path = ''.sst'' \<or> Ext path = ''.vlog'' then sz + n else sz)"

text \<open>\<open>func calculateDBSize(path string) bytesize.ByteSize\<close>\<close>

definition calculateDBSize :: "walk_entry list \<Rightarrow> ByteSize" where
  "calculateDBSize dir = calculateDBSize_walk dir 0"

text \<open>
  The literal \<open>0.7\<close> of \<open>d.runGC(0.7)\<close>: the \<open>float64\<close> nearest to seven tenths, which
  is 3152519739159347 / 2^52.
\<close>

definition discardRatio_0_7 :: float64 where
  "discardRatio_0_7 = Finite (3152519739159347 / 4503599627370496)"

text \<open>
  The body of the task that \<open>newBadger\<close> attaches to a database, one tick of it:
  \<^verbatim>\<open>
  diff := calculateDBSize(badgerPath) - d.lastGC
  if d.lastGC == 0 || s.gcSizeDiff == 0 || diff > s.gcSizeDiff {
      d.runGC(0.7)
      d.gcCount.Inc()
      d.lastGC = calculateDBSize(badgerPath)
  }
  \<close>
  \<open>dir\<close> is the database directory as walked at the start of the tick, \<open>dir'\<close> as walked
  after \<open>runGC\<close> has returned. \<open>gcCount\<close> counts the calls of \<open>Inc\<close>. The result is
  \<open>None\<close> when \<open>runGC\<close> does not return.
\<close>

definition newBadger_task ::
  "ByteSize \<Rightarrow> walk_entry list \<Rightarrow> walk_entry list \<Rightarrow> db \<Rightarrow> (db \<times> log_entry list) option"
where
  "newBadger_task gcSizeDiff dir dir' d =
     (let diff = calculateDBSize dir - lastGC d
      in if lastGC d = 0 \<or> gcSizeDiff = 0 \<or> gcSizeDiff <s diff
         then (case runGC d discardRatio_0_7 of
                 None \<Rightarrow> None
               | Some (reclaimed, d1, lg) \<Rightarrow>
                   Some (d1\<lparr>gcCount := Suc (gcCount d1), lastGC := calculateDBSize dir'\<rparr>, lg))
         else Some (d, []))"

section \<open>The storage orchestrator (storage.go)\<close>

text \<open>\<open>time.Duration\<close> is a signed 64-bit count of nanoseconds.\<close>

type_synonym Duration = int64

text \<open>
  The fields of \<open>config.Server\<close> that the modelled functions read. Its declaration is not
  among the sources; \<open>CacheEvictThreshold\<close> is compared with a \<open>float64\<close>, and
  \<open>CacheEvictVolume\<close> is the percentage handed to the cache.
\<close>

record config_Server =
  CacheEvictThreshold :: float64
  CacheEvictVolume :: float64

text \<open>
  A \<open>Storage\<close> holds five pointers to databases. \<open>New\<close> obtains each from its own call
  of \<open>newBadger\<close>, which allocates a fresh \<open>db\<close>, so the five pointers differ and a
  pointer is known by the field that holds it: \<open>deref\<close> reads the database behind it.
\<close>

datatype db_ref = MainRef | DimensionsRef | SegmentsRef | DictsRef | TreesRef

text \<open>
  The calls that the orchestrator makes on its collaborators (caches, engines, the logger
  of a database, the Go runtime) are recorded in \<open>calls\<close>, oldest first.
\<close>

datatype call =
    CacheEvict db_ref float64
  | CacheWriteBack db_ref
  | CacheFlush db_ref
  | DBClose db_ref
  | LoggerError db_ref string go_error
  | RuntimeGC
  | GarbageCollection

text \<open>
  \<open>stop\<close> is true when the channel \<open>s.stop\<close> is closed; \<open>size_storage\<close> is the field
  \<open>size\<close>; the fields of the embedded \<open>storageOptions\<close> are fields of the record.
\<close>

record storage =
  config :: config_Server
  metricsUpdateInterval :: Duration
  writeBackInterval :: Duration
  evictInterval :: Duration
  cacheTTL :: Duration
  gcInterval :: Duration
  gcSizeDiff :: ByteSize
  reclaimSizeRatio :: float64
  segments :: db
  dimensions :: db
  dicts :: db
  trees :: db
  main :: db
  size_storage :: ByteSize
  stop :: bool
  calls :: "call list"

fun deref :: "storage \<Rightarrow> db_ref \<Rightarrow> db" where
  "deref s MainRef = main s"
| "deref s DimensionsRef = dimensions s"
| "deref s SegmentsRef = segments s"
| "deref s DictsRef = dicts s"
| "deref s TreesRef = trees s"

text \<open>\<open>func (s *Storage) databases() []*db\<close>, "order matters".\<close>

definition databases :: "storage \<Rightarrow> db_ref list" where
  "databases s = [MainRef, DimensionsRef, SegmentsRef, DictsRef, TreesRef]"

text \<open>
  \<open>func (s *Storage) DiskUsage() map[string]bytesize.ByteSize\<close>. The Go map is an
  association list with one entry for each key; \<open>m[d.name] = d.size()\<close> replaces the
  entry of a name that is already present.
\<close>

definition DiskUsage :: "storage \<Rightarrow> (string \<times> ByteSize) list" where
  "DiskUsage s =
     foldl (\<lambda>m r. AList.update (name (deref s r)) (size_db (deref s r)) m) [] (databases s)"

text \<open>
  \<open>func (s *Storage) watchDBSize(diff bytesize.ByteSize, f func()) func()\<close>, one call of
  the function it returns. \<open>f\<close> is a method value of the storage (\<open>s.CollectGarbage\<close> in
  \<open>New\<close>), so it acts on the storage. The loop over the map adds up its values; the
  order in which Go visits a map is not fixed, and the sum does not depend on it (lemma
  \<open>DiskUsage_sum_any_order\<close>).
\<close>

definition watchDBSize :: "ByteSize \<Rightarrow> (storage \<Rightarrow> storage) \<Rightarrow> storage \<Rightarrow> storage" where
  "watchDBSize diff f s =
     (let n = sum_list (map snd (DiskUsage s))
      in if diff = 0 \<or> diff <s n - size_storage s
         then f (s\<lparr>size_storage := n\<rparr>)
         else s)"

text \<open>
  Modelled from the spec: \<open>CollectGarbage\<close>, the function that \<open>New\<close> hands to
  \<open>watchDBSize\<close>, is "a full garbage-collection pass across all databases"; its code is
  not among the sources. The model records that the pass was started.
\<close>

definition CollectGarbage :: "storage \<Rightarrow> storage" where
  "CollectGarbage s = s\<lparr>calls := calls s @ [GarbageCollection]\<rparr>"

text \<open>
  A method of the cache called through a database without a cache dereferences a nil
  pointer: the call panics. \<open>and_then\<close> runs the next statement unless a panic ended
  the function.
\<close>

datatype panic = NilPointerDereference | CloseOfClosedChannel | NegativeWaitGroupCounter

definition and_then :: "panic + 'a \<Rightarrow> ('a \<Rightarrow> panic + 'b) \<Rightarrow> panic + 'b" where
  "and_then r k = (case r of Inl p \<Rightarrow> Inl p | Inr x \<Rightarrow> k x)"

definition Evict :: "db_ref \<Rightarrow> float64 \<Rightarrow> storage \<Rightarrow> panic + storage" where
  "Evict r percent s =
     (case Cache (deref s r) of
        None \<Rightarrow> Inl NilPointerDereference
      | Some c \<Rightarrow> Inr (s\<lparr>calls := calls s @ [CacheEvict r percent]\<rparr>))"

definition WriteBack :: "db_ref \<Rightarrow> storage \<Rightarrow> panic + storage" where
  "WriteBack r s =
     (case Cache (deref s r) of
        None \<Rightarrow> Inl NilPointerDereference
      | Some c \<Rightarrow> Inr (s\<lparr>calls := calls s @ [CacheWriteBack r]\<rparr>))"

text \<open>
  \<open>func (s *Storage) evictionTask(memTotal uint64) func()\<close>, one call of the function it
  returns. \<open>alloc\<close> is \<open>m.Alloc\<close> as \<open>runtime.ReadMemStats\<close> reports it. The conversion
  \<open>float64(_)\<close> of a \<open>uint64\<close> and the division of two \<open>float64\<close> round; they are the
  parameters \<open>to_float64\<close> and \<open>fdiv\<close>.
\<close>

definition evictionTask ::
  "(64 word \<Rightarrow> float64) \<Rightarrow> (float64 \<Rightarrow> float64 \<Rightarrow> float64) \<Rightarrow> 64 word \<Rightarrow> 64 word \<Rightarrow> storage
   \<Rightarrow> panic + storage"
where
  "evictionTask to_float64 fdiv memTotal alloc s =
     (let used = fdiv (to_float64 alloc) (to_float64 memTotal);
          percent = CacheEvictVolume (config s)
      in if f64_less used (CacheEvictThreshold (config s)) then Inr s
         else and_then (Evict TreesRef percent s) (\<lambda>s1.
              and_then (WriteBack DictsRef s1) (\<lambda>s2.
              and_then (WriteBack DimensionsRef s2) (\<lambda>s3.
              and_then (WriteBack SegmentsRef s3) (\<lambda>s4.
              Inr (s4\<lparr>calls := calls s4 @ [RuntimeGC]\<rparr>))))))"

text \<open>\<open>func (s *Storage) writeBackTask()\<close>\<close>

fun writeBackTask_loop :: "db_ref list \<Rightarrow> storage \<Rightarrow> panic + storage" where
  "writeBackTask_loop [] s = Inr s"
| "writeBackTask_loop (r # rs) s =
     (if Cache (deref s r) \<noteq> None
      then and_then (WriteBack r s) (writeBackTask_loop rs)
      else writeBackTask_loop rs s)"

definition writeBackTask :: "storage \<Rightarrow> panic + storage" where
  "writeBackTask s = writeBackTask_loop (databases s) s"

subsection \<open>Periodic tasks\<close>

text \<open>
  \<open>func (s *Storage) periodicTask(interval time.Duration, f func())\<close>. What the task
  does depends on what its \<open>select\<close> statements find: \<open>stopped\<close> tells whether \<open>s.stop\<close>
  is closed when the first \<open>select\<close> (the one with the \<open>default\<close> case) is evaluated, and
  \<open>selects\<close> lists the cases that the \<open>select\<close> statements of the loop take, in order.
  The body \<open>f\<close> acts on a state; \<open>None\<close> is a body that does not return.

  The result is the state, the events of the task (the timer, the runs of the body, the
  deferred \<open>timer.Stop()\<close> and \<open>s.wg.Done()\<close>) and where the task is at the end of
  \<open>selects\<close>: returned, blocked in its \<open>select\<close>, or inside a body that does not return.
\<close>

datatype select_case = StopSignal | TimerExpired

datatype task_event =
    NewTimer Duration
  | RunBody
  | TimerReset Duration
  | TimerStop
  | WaitGroupDone

datatype task_status = Exited | Selecting | InBody

fun periodicTask_loop ::
  "Duration \<Rightarrow> ('s \<Rightarrow> 's option) \<Rightarrow> select_case list \<Rightarrow> 's \<Rightarrow> task_event list
   \<Rightarrow> 's \<times> task_event list \<times> task_status"
where
  "periodicTask_loop interval f [] st tr = (st, tr, Selecting)"
| "periodicTask_loop interval f (StopSignal # rest) st tr =
     (st, tr @ [TimerStop, WaitGroupDone], Exited)"
| "periodicTask_loop interval f (TimerExpired # rest) st tr =
     (case f st of
        None \<Rightarrow> (st, tr @ [RunBody], InBody)
      | Some st' \<Rightarrow> periodicTask_loop interval f rest st' (tr @ [RunBody, TimerReset interval]))"

definition periodicTask ::
  "Duration \<Rightarrow> ('s \<Rightarrow> 's option) \<Rightarrow> bool \<Rightarrow> select_case list \<Rightarrow> 's
   \<Rightarrow> 's \<times> task_event list \<times> task_status"
where
  "periodicTask interval f stopped selects st =
     (if stopped then (st, [NewTimer interval, TimerStop, WaitGroupDone], Exited)
      else (case f st of
              None \<Rightarrow> (st, [NewTimer interval, RunBody], InBody)
            | Some st' \<Rightarrow> periodicTask_loop interval f selects st' [NewTimer interval, RunBody]))"

text \<open>\<open>runs f n\<close> is \<open>n\<close> runs of the body, one after the other.\<close>

fun runs :: "('s \<Rightarrow> 's option) \<Rightarrow> nat \<Rightarrow> 's \<Rightarrow> 's option" where
  "runs f 0 st = Some st"
| "runs f (Suc n) st = (case f st of None \<Rightarrow> None | Some st' \<Rightarrow> runs f n st')"

subsection \<open>Close\<close>

text \<open>
  \<open>func (d *db) close()\<close>, the calls it makes for the database behind \<open>r\<close>: the flush of
  the cache when there is one, the close of the engine, and the error line when the
  engine reports an error.
\<close>

definition close_db :: "storage \<Rightarrow> db_ref \<Rightarrow> call list" where
  "close_db s r =
     (case Cache (deref s r) of None \<Rightarrow> [] | Some c \<Rightarrow> [CacheFlush r])
     @ [DBClose r]
     @ (case DB_Close (DB (deref s r)) of
          None \<Rightarrow> []
        | Some err \<Rightarrow> [LoggerError r ''closing database'' err])"

text \<open>The database a call is made for.\<close>

fun call_db :: "call \<Rightarrow> db_ref option" where
  "call_db (CacheEvict r p) = Some r"
| "call_db (CacheWriteBack r) = Some r"
| "call_db (CacheFlush r) = Some r"
| "call_db (DBClose r) = Some r"
| "call_db (LoggerError r msg err) = Some r"
| "call_db RuntimeGC = None"
| "call_db GarbageCollection = None"

text \<open>
  \<open>func (s *Storage) goDB(f func(*db))\<close> starts one goroutine for each database and
  waits for all of them. The goroutines run concurrently: their calls can interleave in
  any way that keeps the order of the calls of each goroutine. \<open>goDB\<close> is the set of the
  call sequences that can be observed when \<open>wg.Wait()\<close> returns.
\<close>

fun interleavings :: "'a list list \<Rightarrow> 'a list set" where
  "interleavings [] = {[]}"
| "interleavings (xs # xss) = (\<Union>ys\<in>interleavings xss. shuffles xs ys)"

definition goDB :: "(db_ref \<Rightarrow> call list) \<Rightarrow> storage \<Rightarrow> call list set" where
  "goDB f s = interleavings (map f (databases s))"

text \<open>
  The part of \<open>Close\<close> that closes the databases:
  \<^verbatim>\<open>
  s.goDB(func(d *db) {
      if d != s.dicts {
          d.close()
      }
  })
  s.dicts.close()
  \<close>
\<close>

definition Close_calls :: "storage \<Rightarrow> call list set" where
  "Close_calls s =
     (\<lambda>t. t @ close_db s DictsRef) `
       goDB (\<lambda>d. if d \<noteq> DictsRef then close_db s d else []) s"

text \<open>
  \<open>func (s *Storage) Close() error\<close>. \<open>close(s.stop)\<close> panics when the channel is closed
  already. \<open>s.wg.Wait()\<close> returns when every periodic task has returned; \<open>tasks_exit\<close>
  tells whether they all do after the stop signal, and the result is \<open>None\<close> when
  \<open>Close\<close> waits for ever. Otherwise the result is the returned error (\<open>None\<close> is \<open>nil\<close>)
  and the storages that \<open>Close\<close> can leave.
\<close>

definition Close :: "bool \<Rightarrow> storage \<Rightarrow> (panic + go_error option \<times> storage set) option" where
  "Close tasks_exit s =
     (if stop s then Some (Inl CloseOfClosedChannel)
      else if \<not> tasks_exit then None
      else Some (Inr (None, (\<lambda>t. s\<lparr>stop := True, calls := calls s @ t\<rparr>) ` Close_calls s)))"

subsection \<open>New\<close>

text \<open>
  What the construction finds outside: the result of \<open>os.MkdirAll\<close> and of
  \<open>badger.Open\<close> for the directory of each database (known by the name of the database),
  of \<open>s.migrate()\<close> and of \<open>getMemTotal()\<close>; \<open>walks nm k\<close>, what the \<open>k\<close>-th walk of the
  directory of database \<open>nm\<close> finds; and, for the task that \<open>newBadger\<close> runs for database
  \<open>nm\<close>, whether \<open>s.stop\<close> is closed at its first \<open>select\<close> and the cases that the \<open>select\<close>
  statements of its loop take. \<open>badgerGCTaskInterval\<close> is the field that \<open>newBadger\<close> reads
  from the storage; storage.go does not declare it, so its value is an input too.
\<close>

record new_env =
  MkdirAll :: "string \<Rightarrow> go_error option"
  badger_Open :: "string \<Rightarrow> go_error + engine"
  migrate :: "go_error option"
  getMemTotal :: "go_error + 64 word"
  badgerGCTaskInterval :: Duration
  walks :: "string \<Rightarrow> nat \<Rightarrow> walk_entry list"
  task_stopped :: "string \<Rightarrow> bool"
  task_selects :: "string \<Rightarrow> select_case list"

datatype codec = dictionaryCodec | dimensionCodec | segmentCodec | treeCodec

datatype task_body =
    WatchDBSize
  | EvictionTask "64 word"
  | WriteBackTask
  | UpdateMetricsTask
  | BadgerGC string

datatype task = MaintenanceTask Duration task_body | PeriodicTask Duration task_body

text \<open>
  What the construction leaves outside the value it returns: \<open>open_dbs\<close> names the
  engines that were opened and not closed, \<open>go_tasks\<close> the goroutines started by the \<open>go\<close>
  statements of \<open>New\<close>, \<open>wg\<close> is the counter of the wait group \<open>s.wg\<close>.
\<close>

record new_world =
  open_dbs :: "string list"
  go_tasks :: "task list"
  wg :: nat

text \<open>\<open>s.wg.Done()\<close> panics when it would make the counter negative.\<close>

fun wg_Done :: "nat \<Rightarrow> panic + nat" where
  "wg_Done 0 = Inl NegativeWaitGroupCounter"
| "wg_Done (Suc n) = Inr n"

text \<open>
  \<^verbatim>\<open>
  func (s *Storage) maintenanceTask(interval time.Duration, f func()) {
      s.periodicTask(interval, func() {
          s.maintenance.Lock()
          defer s.maintenance.Unlock()
          f()
      })
  }
  \<close>
  as one goroutine runs it: the state is the mutex \<open>s.maintenance\<close> (true when locked)
  with the state of \<open>f\<close>. \<open>Lock()\<close> on a locked mutex does not return unless another
  goroutine unlocks it, so the closure does not return then; otherwise \<open>f\<close> runs and the
  deferred \<open>Unlock()\<close> leaves the mutex unlocked.
\<close>

definition maintenanceTask ::
  "Duration \<Rightarrow> ('s \<Rightarrow> 's option) \<Rightarrow> bool \<Rightarrow> select_case list \<Rightarrow> bool \<times> 's
   \<Rightarrow> (bool \<times> 's) \<times> task_event list \<times> task_status"
where
  "maintenanceTask interval f =
     periodicTask interval
       (\<lambda>(locked, st). if locked then None
                        else (case f st of None \<Rightarrow> None | Some st' \<Rightarrow> Some (False, st')))"

text \<open>
  The closure that \<open>newBadger\<close> hands to \<open>maintenanceTask\<close>, with the directory walks
  counted: the tick that starts when \<open>k\<close> walks have been made uses the walks \<open>k\<close> and
  \<open>k + 1\<close> (the second one only when it runs the pass).
\<close>

definition newBadger_tick ::
  "(nat \<Rightarrow> walk_entry list) \<Rightarrow> ByteSize \<Rightarrow> db \<times> nat \<Rightarrow> (db \<times> nat) option"
where
  "newBadger_tick dirs sizeDiff =
     (\<lambda>(d, k). case newBadger_task sizeDiff (dirs k) (dirs (Suc k)) d of
                  None \<Rightarrow> None
                | Some (d', lg) \<Rightarrow> Some (d', k + 2))"

text \<open>
  \<open>func (s *Storage) newBadger(name string, p prefix, codec cache.Codec) (*db, error)\<close>
  (second listing of db.go) creates the directory, opens the engine, builds the \<open>db\<close> and
  its cache, and then calls \<open>s.maintenanceTask(s.badgerGCTaskInterval, func() {...})\<close>.
  This is a plain call, not a \<open>go\<close> statement: \<open>periodicTask\<close> runs in the goroutine of
  \<open>newBadger\<close>, and \<open>newBadger\<close> goes on to \<open>return &d, nil\<close> only when \<open>periodicTask\<close> has
  returned, that is when one of its \<open>select\<close> statements has taken the stop signal and the
  deferred \<open>s.wg.Done()\<close> has not panicked. The mutex of the storage is unlocked when
  the call starts. \<open>sizeDiff\<close> is the field \<open>s.gcSizeDiff\<close> that the closure reads. The
  result is \<open>None\<close> when \<open>newBadger\<close> does not return, a panic, or what it returns.
\<close>

definition newBadger ::
  "new_env \<Rightarrow> ByteSize \<Rightarrow> string \<Rightarrow> prefix \<Rightarrow> codec option \<Rightarrow> new_world
   \<Rightarrow> ((panic + (go_error + db)) \<times> new_world) option"
where
  "newBadger env sizeDiff nm p codec w =
     (case MkdirAll env nm of
        Some err \<Rightarrow> Some (Inr (Inl err), w)
      | None \<Rightarrow>
          (case badger_Open env nm of
             Inl err \<Rightarrow> Some (Inr (Inl err), w)
           | Inr badgerDB \<Rightarrow>
               (let d = \<lparr>name = nm, DB = badgerDB,
                          Cache = (case codec of None \<Rightarrow> None | Some c \<Rightarrow> Some (NewCache p)),
                          lastGC = 0, gcCount = 0\<rparr>;
                    w1 = w\<lparr>open_dbs := open_dbs w @ [nm]\<rparr>
                in case maintenanceTask (badgerGCTaskInterval env)
                          (newBadger_tick (walks env nm) sizeDiff)
                          (task_stopped env nm) (task_selects env nm) (False, d, 0) of
                     ((locked, d', k), tr, Exited) \<Rightarrow>
                       (case wg_Done (wg w1) of
                          Inl pn \<Rightarrow> Some (Inl pn, w1)
                        | Inr n \<Rightarrow> Some (Inr (Inr d'), w1\<lparr>wg := n\<rparr>))
                   | (st, tr, Selecting) \<Rightarrow> None
                   | (st, tr, InBody) \<Rightarrow> None)))"

text \<open>
  The four \<open>go\<close> statements at the end of \<open>New\<close>, with the intervals that \<open>New\<close> sets:
  \<^verbatim>\<open>
  go s.maintenanceTask(s.gcInterval, s.watchDBSize(s.gcSizeDiff, s.CollectGarbage))
  go s.maintenanceTask(s.evictInterval, s.evictionTask(memTotal))
  go s.maintenanceTask(s.writeBackInterval, s.writeBackTask)
  go s.periodicTask(s.metricsUpdateInterval, s.updateMetricsTask)
  \<close>
\<close>

definition New_tasks :: "64 word \<Rightarrow> task list" where
  "New_tasks memTotal =
     [MaintenanceTask 300000000000 WatchDBSize,
      MaintenanceTask 20000000000 (EvictionTask memTotal),
      MaintenanceTask 60000000000 WriteBackTask,
      PeriodicTask 10000000000 UpdateMetricsTask]"

text \<open>
  \<open>func New(c *config.Server, logger *logrus.Logger, reg prometheus.Registerer)
  (*Storage, error)\<close>. A returned \<open>(nil, err)\<close> is \<open>Inr (Inl err)\<close>, a returned storage
  \<open>Inr (Inr s)\<close>, a panic \<open>Inl\<close>, and the result is \<open>None\<close> when \<open>New\<close> does not return.
  \<open>labels.New\<close> returns no error. The wait group of the new storage counts 0 until
  \<open>s.wg.Add(4)\<close>. The durations are in nanoseconds; \<open>256 * bytesize.MB\<close> is taken as 256
  times \<open>2^20\<close> bytes (the declaration of \<open>bytesize.MB\<close> is not among the sources), and the
  literal \<open>0.05\<close> is the \<open>float64\<close> nearest to it, 3602879701896397 / 2^56.
\<close>

definition New ::
  "config_Server \<Rightarrow> new_env \<Rightarrow> ((panic + (go_error + storage)) \<times> new_world) option"
where
  "New c env =
     (case newBadger env 268435456 ''main'' [] None \<lparr>open_dbs = [], go_tasks = [], wg = 0\<rparr> of
        None \<Rightarrow> None
      | Some (Inl pn, w) \<Rightarrow> Some (Inl pn, w)
      | Some (Inr (Inl err), w) \<Rightarrow> Some (Inr (Inl err), w)
      | Some (Inr (Inr main_db), w1) \<Rightarrow>
     (case newBadger env 268435456 ''dicts'' dictionaryPrefix (Some dictionaryCodec) w1 of
        None \<Rightarrow> None
      | Some (Inl pn, w) \<Rightarrow> Some (Inl pn, w)
      | Some (Inr (Inl err), w) \<Rightarrow> Some (Inr (Inl err), w)
      | Some (Inr (Inr dicts_db), w2) \<Rightarrow>
     (case newBadger env 268435456 ''dimensions'' dimensionPrefix (Some dimensionCodec) w2 of
        None \<Rightarrow> None
      | Some (Inl pn, w) \<Rightarrow> Some (Inl pn, w)
      | Some (Inr (Inl err), w) \<Rightarrow> Some (Inr (Inl err), w)
      | Some (Inr (Inr dimensions_db), w3) \<Rightarrow>
     (case newBadger env 268435456 ''segments'' segmentPrefix (Some segmentCodec) w3 of
        None \<Rightarrow> None
      | Some (Inl pn, w) \<Rightarrow> Some (Inl pn, w)
      | Some (Inr (Inl err), w) \<Rightarrow> Some (Inr (Inl err), w)
      | Some (Inr (Inr segments_db), w4) \<Rightarrow>
     (case newBadger env 268435456 ''trees'' treePrefix (Some treeCodec) w4 of
        None \<Rightarrow> None
      | Some (Inl pn, w) \<Rightarrow> Some (Inl pn, w)
      | Some (Inr (Inl err), w) \<Rightarrow> Some (Inr (Inl err), w)
      | Some (Inr (Inr trees_db), w5) \<Rightarrow>
     (case migrate env of
        Some err \<Rightarrow> Some (Inr (Inl err), w5)
      | None \<Rightarrow>
     (case getMemTotal env of
        Inl err \<Rightarrow> Some (Inr (Inl err), w5)
      | Inr memTotal \<Rightarrow>
          Some (Inr (Inr \<lparr>config = c,
                metricsUpdateInterval = 10000000000,
                writeBackInterval = 60000000000,
                evictInterval = 20000000000,
                cacheTTL = 120000000000,
                gcInterval = 300000000000,
                gcSizeDiff = 268435456,
                reclaimSizeRatio = Finite (3602879701896397 / 72057594037927936),
                segments = segments_db,
                dimensions = dimensions_db,
                dicts = dicts_db,
                trees = trees_db,
                main = main_db,
                size_storage = 0,
                stop = False,
                calls = []\<rparr>),
           w5\<lparr>wg := wg w5 + 4, go_tasks := New_tasks memTotal\<rparr>))))))))"

text \<open>Whether the directory of a database can be created and its engine opened.\<close>

definition opens :: "new_env \<Rightarrow> string \<Rightarrow> bool" where
  "opens env nm = (MkdirAll env nm = None \<and> \<not> isl (badger_Open env nm))"

subsection \<open>The maintenance mutex\<close>

text \<open>
  \<^verbatim>\<open>
  func (s *Storage) maintenanceTask(interval time.Duration, f func()) {
      s.periodicTask(interval, func() {
          s.maintenance.Lock()
          defer s.maintenance.Unlock()
          f()
      })
  }
  \<close>
  The tasks of a storage run as goroutines next to each other. Each goroutine is at one
  of four places: at a \<open>select\<close> of \<open>periodicTask\<close>, at \<open>s.maintenance.Lock()\<close>, inside
  its body \<open>f\<close>, or returned. The steps of a goroutine are: \<open>Fire\<close>, its \<open>select\<close> lets
  the body start (at once after the start, or at a timer expiry), and a task started
  with \<open>maintenanceTask\<close> comes to \<open>Lock()\<close> while a task started with \<open>periodicTask\<close>
  alone is inside its body; \<open>Acquire\<close>, \<open>Lock()\<close> returns, which a \<open>sync.Mutex\<close> allows
  only while it is unlocked; \<open>Return\<close>, the body returns, and with it the closure, whose
  deferred \<open>Unlock()\<close> unlocks the mutex; \<open>Quit\<close>, the \<open>select\<close> takes the stop signal.
  \<open>exec\<close> is \<open>None\<close> for a step that the goroutine cannot take where it is.
\<close>

datatype pc = AtSelect | AtLock | InTaskBody | Done

record sys =
  maintenance :: bool
  pcs :: "pc list"

datatype action = Fire nat | Acquire nat | Return nat | Quit nat

fun is_maintenance :: "task \<Rightarrow> bool" where
  "is_maintenance (MaintenanceTask interval f) = True"
| "is_maintenance (PeriodicTask interval f) = False"

text \<open>
  The task that \<open>newBadger\<close> starts for the database \<open>nm\<close> with
  \<open>s.maintenanceTask(s.badgerGCTaskInterval, func() {...})\<close>, and all the tasks of a
  storage: those of the databases that \<open>newBadger\<close> has opened and the four of \<open>New\<close>.
\<close>

definition newBadger_gc_task :: "Duration \<Rightarrow> string \<Rightarrow> task" where
  "newBadger_gc_task interval nm = MaintenanceTask interval (BadgerGC nm)"

definition storage_tasks :: "Duration \<Rightarrow> string list \<Rightarrow> 64 word \<Rightarrow> task list" where
  "storage_tasks interval names memTotal =
     map (newBadger_gc_task interval) names @ New_tasks memTotal"

text \<open>
  The body of a task, and the bodies that count as maintenance: the aggregate
  size-triggered GC, the eviction, the write-back and the GC of one database. The metrics
  refresh does not.
\<close>

fun task_body_of :: "task \<Rightarrow> task_body" where
  "task_body_of (MaintenanceTask interval f) = f"
| "task_body_of (PeriodicTask interval f) = f"

fun is_maintenance_body :: "task_body \<Rightarrow> bool" where
  "is_maintenance_body WatchDBSize = True"
| "is_maintenance_body (EvictionTask memTotal) = True"
| "is_maintenance_body WriteBackTask = True"
| "is_maintenance_body (BadgerGC nm) = True"
| "is_maintenance_body UpdateMetricsTask = False"

definition sys_init :: "task list \<Rightarrow> sys" where
  "sys_init tasks = \<lparr>maintenance = False, pcs = replicate (length tasks) AtSelect\<rparr>"

fun exec :: "task list \<Rightarrow> action \<Rightarrow> sys \<Rightarrow> sys option" where
  "exec tasks (Fire i) s =
     (if i < length tasks \<and> pcs s ! i = AtSelect
      then Some (s\<lparr>pcs := (pcs s)[i := (if is_maintenance (tasks ! i) then AtLock else InTaskBody)]\<rparr>)
      else None)"
| "exec tasks (Acquire i) s =
     (if i < length tasks \<and> pcs s ! i = AtLock \<and> \<not> maintenance s
      then Some (s\<lparr>maintenance := True, pcs := (pcs s)[i := InTaskBody]\<rparr>)
      else None)"
| "exec tasks (Return i) s =
     (if i < length tasks \<and> pcs s ! i = InTaskBody
      then Some (s\<lparr>maintenance := (if is_maintenance (tasks ! i) then False else maintenance s),
                   pcs := (pcs s)[i := AtSelect]\<rparr>)
      else None)"
| "exec tasks (Quit i) s =
     (if i < length tasks \<and> pcs s ! i = AtSelect
      then Some (s\<lparr>pcs := (pcs s)[i := Done]\<rparr>)
      else None)"

fun run :: "task list \<Rightarrow> action list \<Rightarrow> sys \<Rightarrow> sys option" where
  "run tasks [] s = Some s"
| "run tasks (a # as) s = (case exec tasks a s of None \<Rightarrow> None | Some s' \<Rightarrow> run tasks as s')"

text \<open>The goroutines that are inside the body of a maintenance task.\<close>

definition in_maintenance_body :: "task list \<Rightarrow> sys \<Rightarrow> nat list" where
  "in_maintenance_body tasks s =
     filter (\<lambda>i. is_maintenance (tasks ! i) \<and> pcs s ! i = InTaskBody) [0..<length tasks]"

text \<open>The goroutines that are inside one of the bodies that count as maintenance.\<close>

definition maintenance_bodies_running :: "task list \<Rightarrow> sys \<Rightarrow> nat list" where
  "maintenance_bodies_running tasks s =
     filter (\<lambda>i. is_maintenance_body (task_body_of (tasks ! i)) \<and> pcs s ! i = InTaskBody)
       [0..<length tasks]"

text \<open>
  What holds in every state that the goroutines can reach: no two goroutines are inside
  the body of a maintenance task, and the mutex is locked while one is.
\<close>

definition mutex_inv :: "task list \<Rightarrow> sys \<Rightarrow> bool" where
  "mutex_inv tasks s \<longleftrightarrow>
     length (pcs s) = length tasks
     \<and> (\<forall>i j. i < length tasks \<and> j < length tasks
            \<and> is_maintenance (tasks ! i) \<and> is_maintenance (tasks ! j)
            \<and> pcs s ! i = InTaskBody \<and> pcs s ! j = InTaskBody \<longrightarrow> i = j)
     \<and> (\<forall>i. i < length tasks \<and> is_maintenance (tasks ! i) \<and> pcs s ! i = InTaskBody
            \<longrightarrow> maintenance s)"

section \<open>Example inputs\<close>

text \<open>
  An engine with nothing to reclaim answers \<open>ErrNoRewrite\<close> to every call; an engine with
  one file to rewrite answers \<open>nil\<close> to the first call and \<open>ErrNoRewrite\<close> afterwards.
\<close>

definition engine_nothing_to_reclaim :: engine where
  "engine_nothing_to_reclaim =
     \<lparr>DB_Flatten = None, DB_RunValueLogGC = (\<lambda>i r. Some ErrNoRewrite), DB_gc_calls = 0,
      DB_Size = (0, 0), DB_Close = None\<rparr>"

definition engine_one_rewrite :: engine where
  "engine_one_rewrite =
     \<lparr>DB_Flatten = None,
      DB_RunValueLogGC = (\<lambda>i r. if i = 0 then None else Some ErrNoRewrite), DB_gc_calls = 0,
      DB_Size = (0, 0), DB_Close = None\<rparr>"

definition db_nothing_to_reclaim :: db where
  "db_nothing_to_reclaim =
     \<lparr>name = ''main'', DB = engine_nothing_to_reclaim, Cache = None, lastGC = 0, gcCount = 0\<rparr>"

definition db_one_rewrite :: db where
  "db_one_rewrite =
     \<lparr>name = ''main'', DB = engine_one_rewrite, Cache = None, lastGC = 0, gcCount = 0\<rparr>"

text \<open>
  A storage as \<open>New\<close> builds it: the five names, a cache for every database but
  \<open>main\<close>, the options of \<open>New\<close>. The main database holds 256 MB of tables and one byte
  of value log, the others are empty.
\<close>

definition db_example :: "string \<Rightarrow> prefix option \<Rightarrow> int64 \<times> int64 \<Rightarrow> db" where
  "db_example n p sz =
     \<lparr>name = n, DB = engine_nothing_to_reclaim\<lparr>DB_Size := sz\<rparr>,
      Cache = map_option NewCache p, lastGC = 0, gcCount = 0\<rparr>"

definition storage_example :: storage where
  "storage_example =
     \<lparr>config = \<lparr>CacheEvictThreshold = Finite (1 / 4), CacheEvictVolume = Finite (1 / 2)\<rparr>,
      metricsUpdateInterval = 10000000000,
      writeBackInterval = 60000000000,
      evictInterval = 20000000000,
      cacheTTL = 120000000000,
      gcInterval = 300000000000,
      gcSizeDiff = 268435456,
      reclaimSizeRatio = Finite (3602879701896397 / 72057594037927936),
      segments = db_example ''segments'' (Some segmentPrefix) (0, 0),
      dimensions = db_example ''dimensions'' (Some dimensionPrefix) (0, 0),
      dicts = db_example ''dicts'' (Some dictionaryPrefix) (0, 0),
      trees = db_example ''trees'' (Some treePrefix) (0, 0),
      main = db_example ''main'' None (268435456, 1),
      size_storage = 0,
      stop = False,
      calls = []\<rparr>"

text \<open>
  Conversion and division that are exact on the operands of the examples (small
  integers, and quotients that are powers of two).
\<close>

definition exact_to_float64 :: "64 word \<Rightarrow> float64" where
  "exact_to_float64 w = Finite (of_nat (unat w))"

fun exact_fdiv :: "float64 \<Rightarrow> float64 \<Rightarrow> float64" where
  "exact_fdiv (Finite a) (Finite b) =
     (if b = 0 then (if a = 0 then NaN else if 0 < a then PosInf else NegInf) else Finite (a / b))"
| "exact_fdiv _ _ = NaN"

text \<open>
  The example storage with a segments engine that fails to close, and one way in which
  the calls of \<open>Close\<close> can interleave on it.
\<close>

definition storage_close_error :: storage where
  "storage_close_error =
     storage_example\<lparr>segments :=
       (segments storage_example)\<lparr>DB :=
         (DB (segments storage_example))\<lparr>DB_Close := Some (ErrOther ''sync failed'')\<rparr>\<rparr>\<rparr>"

definition close_run_example :: "call list" where
  "close_run_example =
     [CacheFlush TreesRef, DBClose MainRef, CacheFlush SegmentsRef, CacheFlush DimensionsRef,
      DBClose SegmentsRef, DBClose TreesRef,
      LoggerError SegmentsRef ''closing database'' (ErrOther ''sync failed''),
      DBClose DimensionsRef, CacheFlush DictsRef, DBClose DictsRef]"


section \<open>Theorems about key prefixes\<close>

text \<open>
  C10. For every prefix \<open>p\<close> and byte string \<open>k\<close>: when \<open>k\<close> is strictly longer than \<open>p\<close>,
  \<open>trim\<close> returns \<open>k\<close> without its first \<open>len(p)\<close> bytes together with \<open>true\<close>, whatever
  those bytes are (they need not equal \<open>p\<close>); otherwise it returns \<open>(nil, false)\<close>. So for
  every non-empty \<open>s\<close>, trimming \<open>key(s)\<close> gives back \<open>(s, true)\<close>.
\<close>

theorem trim_spec:
  "(length p < length k \<longrightarrow>
      (\<exists>pre rest. k = pre @ rest \<and> length pre = length p \<and> trim p k = (Some rest, True)))
   \<and> (length k \<le> length p \<longrightarrow> trim p k = (None, False))
   \<and> (s \<noteq> [] \<longrightarrow> trim p (key p s) = (Some s, True))"
proof (intro conjI impI)
  assume long: "length p < length k"
  have "k = take (length p) k @ drop (length p) k" by simp
  moreover have "length (take (length p) k) = length p" using long by simp
  moreover have "trim p k = (Some (drop (length p) k), True)" using long by (simp add: trim_def)
  ultimately show "\<exists>pre rest. k = pre @ rest \<and> length pre = length p \<and> trim p k = (Some rest, True)"
    by blast
next
  assume "length k \<le> length p"
  then show "trim p k = (None, False)" by (simp add: trim_def)
next
  assume "s \<noteq> []"
  then show "trim p (key p s) = (Some s, True)" by (simp add: trim_def key_def)
qed

theorem trim_spec_witness:
  "trim treePrefix ''x:abc'' = (Some ''abc'', True)
   \<and> trim treePrefix ''t:'' = (None, False)
   \<and> trim treePrefix (key treePrefix ''abc'') = (Some ''abc'', True)"
proof -
  have len: "length treePrefix < length ''x:abc''" by (simp add: treePrefix_def)
  from trim_spec [of treePrefix "''x:abc''" "''abc''"] len
  obtain pre rest where k: "''x:abc'' = pre @ rest" and l: "length pre = length treePrefix"
    and t: "trim treePrefix ''x:abc'' = (Some rest, True)"
    by blast
  have "rest = drop (length pre) (pre @ rest)" by simp
  also have "\<dots> = drop 2 ''x:abc''" using k l by (simp add: treePrefix_def)
  finally have "rest = ''abc''" by simp
  with t have first: "trim treePrefix ''x:abc'' = (Some ''abc'', True)" by simp
  from trim_spec [of treePrefix "''t:''" "''abc''"]
  have "trim treePrefix ''t:'' = (None, False)
    \<and> trim treePrefix (key treePrefix ''abc'') = (Some ''abc'', True)"
    by (simp add: treePrefix_def)
  with first show ?thesis by simp
qed

section \<open>Theorems about value-log garbage collection\<close>

text \<open>As long as the engine answers \<open>nil\<close>, the loop goes on and remembers the success.\<close>

lemma runGC_loop_skip:
  "(\<forall>j<n. DB_RunValueLogGC e (i + j) r = None) \<Longrightarrow>
   runGC_loop e r i rc lg = runGC_loop e r (i + n) (rc \<or> 0 < n) lg"
proof (induction n arbitrary: i rc)
  case 0
  then show ?case by simp
next
  case (Suc n)
  have h0: "DB_RunValueLogGC e i r = None"
    using Suc.prems [rule_format, of 0] by simp
  have "\<forall>j<n. DB_RunValueLogGC e (Suc i + j) r = None"
  proof (intro allI impI)
    fix j assume "j < n"
    then have "Suc j < Suc n" by simp
    from Suc.prems [rule_format, OF this] show "DB_RunValueLogGC e (Suc i + j) r = None" by simp
  qed
  from Suc.IH [OF this, of True] h0 show ?case
    by (subst runGC_loop.simps) simp
qed

text \<open>The loop returns only when the engine has answered something other than \<open>nil\<close>.\<close>

lemma runGC_loop_answer:
  "runGC_loop e r i rc lg = Some y \<Longrightarrow> \<exists>j\<ge>i. DB_RunValueLogGC e j r \<noteq> None"
proof (rule runGC_loop.raw_induct [where P = "\<lambda>e r i rc lg y. \<exists>j\<ge>i. DB_RunValueLogGC e j r \<noteq> None"])
  show "runGC_loop e r i rc lg = Some y \<Longrightarrow> runGC_loop e r i rc lg = Some y" .
next
  fix loop :: "engine \<Rightarrow> float64 \<Rightarrow> nat \<Rightarrow> bool \<Rightarrow> log_entry list \<Rightarrow> (bool \<times> nat \<times> log_entry list) option"
  fix e r i rc lg y
  assume IH: "\<And>e r i rc lg y. loop e r i rc lg = Some y \<Longrightarrow> \<exists>j\<ge>i. DB_RunValueLogGC e j r \<noteq> None"
  assume body: "(case DB_RunValueLogGC e i r of
        None \<Rightarrow> loop e r (Suc i) True lg
      | Some err \<Rightarrow>
          (case err of
             ErrNoRewrite \<Rightarrow> Some (rc, Suc i, lg)
           | ErrOther x \<Rightarrow> Some (False, Suc i, lg @ [Warn ''failed to run GC'' err]))) = Some y"
  show "\<exists>j\<ge>i. DB_RunValueLogGC e j r \<noteq> None"
  proof (cases "DB_RunValueLogGC e i r")
    case None
    with body have "loop e r (Suc i) True lg = Some y" by (simp only: option.case)
    from IH [OF this] obtain j where j: "j \<ge> Suc i" "DB_RunValueLogGC e j r \<noteq> None"
      by (elim exE conjE)
    from j(1) have "i \<le> j" by simp
    with j(2) show ?thesis by (intro exI conjI)
  next
    case (Some a)
    have "i \<le> i" by simp
    moreover have "DB_RunValueLogGC e i r \<noteq> None" using Some by simp
    ultimately show ?thesis by (intro exI conjI)
  qed
qed

lemma runGC_loop_diverges:
  assumes "\<forall>j\<ge>i. DB_RunValueLogGC e j r = None"
  shows "runGC_loop e r i rc lg = None"
proof (cases "runGC_loop e r i rc lg")
  case None
  then show ?thesis .
next
  case (Some y)
  from runGC_loop_answer [OF this] obtain j where "j \<ge> i" "DB_RunValueLogGC e j r \<noteq> None"
    by (elim exE conjE)
  with assms show ?thesis by simp
qed

lemma runGC_loop_NoRewrite:
  assumes "\<forall>j<n. DB_RunValueLogGC e (i + j) r = None"
    and "DB_RunValueLogGC e (i + n) r = Some ErrNoRewrite"
  shows "runGC_loop e r i rc lg = Some (rc \<or> 0 < n, Suc (i + n), lg)"
  using runGC_loop_skip [OF assms(1), of rc lg] assms(2)
  by (simp add: runGC_loop.simps [of e r "i + n"])

lemma runGC_loop_ErrOther:
  assumes "\<forall>j<n. DB_RunValueLogGC e (i + j) r = None"
    and "DB_RunValueLogGC e (i + n) r = Some (ErrOther x)"
  shows "runGC_loop e r i rc lg =
    Some (False, Suc (i + n), lg @ [Warn ''failed to run GC'' (ErrOther x)])"
  using runGC_loop_skip [OF assms(1), of rc lg] assms(2)
  by (simp add: runGC_loop.simps [of e r "i + n"])

text \<open>
  \<open>runGC\<close> of the second listing, for every sequence of answers of the engine. When \<open>n\<close>
  calls succeed and the next one reports \<open>ErrNoRewrite\<close>, it returns whether \<open>n\<close> is
  positive; when the next one reports another error, it returns \<open>false\<close> and logs a
  warning; when every call succeeds, it never returns.
\<close>

lemma runGC_NoRewrite:
  assumes "\<forall>j<n. DB_RunValueLogGC (DB d) (DB_gc_calls (DB d) + j) r = None"
    and "DB_RunValueLogGC (DB d) (DB_gc_calls (DB d) + n) r = Some ErrNoRewrite"
  shows "runGC d r =
    Some (0 < n, d\<lparr>DB := (DB d)\<lparr>DB_gc_calls := Suc (DB_gc_calls (DB d) + n)\<rparr>\<rparr>,
          runGC_flatten (DB d))"
  using runGC_loop_NoRewrite [OF assms, of False "runGC_flatten (DB d)"]
  by (simp add: runGC_def)

lemma runGC_ErrOther:
  assumes "\<forall>j<n. DB_RunValueLogGC (DB d) (DB_gc_calls (DB d) + j) r = None"
    and "DB_RunValueLogGC (DB d) (DB_gc_calls (DB d) + n) r = Some (ErrOther x)"
  shows "runGC d r =
    Some (False, d\<lparr>DB := (DB d)\<lparr>DB_gc_calls := Suc (DB_gc_calls (DB d) + n)\<rparr>\<rparr>,
          runGC_flatten (DB d) @ [Warn ''failed to run GC'' (ErrOther x)])"
  using runGC_loop_ErrOther [OF assms, of False "runGC_flatten (DB d)"]
  by (simp add: runGC_def)

lemma runGC_diverges:
  assumes "\<forall>j\<ge>DB_gc_calls (DB d). DB_RunValueLogGC (DB d) j r = None"
  shows "runGC d r = None"
  using runGC_loop_diverges [OF assms, of False "runGC_flatten (DB d)"]
  by (simp add: runGC_def)

text \<open>
  \<open>runGC\<close> of the first listing never returns \<open>true\<close>: both of its \<open>return\<close> statements
  return the literal \<open>false\<close>.
\<close>

lemma runGC_first_loop_false:
  "runGC_first_loop e r i rc lg = Some y \<Longrightarrow> \<not> fst y"
proof (rule runGC_first_loop.raw_induct [where P = "\<lambda>e r i rc lg y. \<not> fst y"])
  show "runGC_first_loop e r i rc lg = Some y \<Longrightarrow> runGC_first_loop e r i rc lg = Some y" .
next
  fix loop :: "engine \<Rightarrow> float64 \<Rightarrow> nat \<Rightarrow> bool \<Rightarrow> log_entry list \<Rightarrow> (bool \<times> nat \<times> log_entry list) option"
  fix e r i rc lg y
  assume IH: "\<And>e r i rc lg y. loop e r i rc lg = Some y \<Longrightarrow> \<not> fst y"
  assume body: "(case DB_RunValueLogGC e i r of
        None \<Rightarrow> loop e r (Suc i) True lg
      | Some err \<Rightarrow>
          (case err of
             ErrNoRewrite \<Rightarrow> Some (False, Suc i, lg)
           | ErrOther x \<Rightarrow> Some (False, Suc i, lg @ [Warn ''failed to run GC'' err]))) = Some y"
  show "\<not> fst y"
  proof (cases "DB_RunValueLogGC e i r")
    case None
    with body have "loop e r (Suc i) True lg = Some y" by (simp only: option.case)
    from IH [OF this] show ?thesis .
  next
    case (Some err)
    show ?thesis
    proof (cases err)
      case ErrNoRewrite
      with Some body have "y = (False, Suc i, lg)" by (simp only: option.case go_error.case option.inject)
      then show ?thesis by simp
    next
      case (ErrOther x)
      with Some body have "y = (False, Suc i, lg @ [Warn ''failed to run GC'' (ErrOther x)])"
        by (simp only: option.case go_error.case option.inject)
      then show ?thesis by simp
    qed
  qed
qed

lemma runGC_first_never_true: "runGC_first d r \<noteq> Some (True, d', lg)"
proof
  assume a: "runGC_first d r = Some (True, d', lg)"
  then obtain n lg' where "runGC_first_loop (DB d) r (DB_gc_calls (DB d)) False (runGC_flatten (DB d))
      = Some (True, n, lg')"
    by (auto simp: runGC_first_def split: option.splits)
  from runGC_first_loop_false [OF this] show False by simp
qed

text \<open>
  C4. \<open>runGC\<close> is to return \<open>true\<close> exactly when at least one call of value-log GC
  succeeded before the engine reported that nothing is left to rewrite. The first listing
  of db.go returns \<open>false\<close> at that report, whatever happened before: on an engine whose
  first call succeeds and whose second call reports \<open>ErrNoRewrite\<close>, it makes the two
  calls and returns \<open>false\<close>, where the second listing returns \<open>true\<close>.
\<close>

theorem runGC_first_loses_reclaimed:
  "runGC_first db_one_rewrite discardRatio_0_7 =
     Some (False, db_one_rewrite\<lparr>DB := engine_one_rewrite\<lparr>DB_gc_calls := 2\<rparr>\<rparr>,
           [Debug ''starting badger garbage collection''])
   \<and> runGC db_one_rewrite discardRatio_0_7 =
     Some (True, db_one_rewrite\<lparr>DB := engine_one_rewrite\<lparr>DB_gc_calls := 2\<rparr>\<rparr>,
           [Debug ''starting badger garbage collection''])"
  by (simp add: runGC_first_def runGC_def runGC_flatten_def runGC_first_loop.simps
      runGC_loop.simps db_one_rewrite_def engine_one_rewrite_def)

section \<open>Theorems about the per-database garbage collection\<close>

text \<open>
  C6 (as amended). On every tick of a database's GC task, the reclaim pass runs, with the
  fixed discard ratio 0.7, exactly when the baseline \<open>lastGC\<close> is zero (unset, or taken
  when the size was zero), or the threshold is zero, or the size difference since the
  last pass strictly exceeds the threshold; so the first tick after the database is
  opened always runs it. When the engine ends the pass after \<open>n\<close> successful calls, the
  pass has made \<open>n + 1\<close> engine calls, the reclaim counter is incremented, and the
  baseline is the size of the database as measured after the pass. A tick without a pass
  changes nothing.
\<close>

theorem newBadger_task_pass:
  assumes nils: "\<forall>j<n. DB_RunValueLogGC (DB d) (DB_gc_calls (DB d) + j) discardRatio_0_7 = None"
    and last: "DB_RunValueLogGC (DB d) (DB_gc_calls (DB d) + n) discardRatio_0_7 = Some err"
  shows "\<exists>d' lg. newBadger_task T dir dir' d = Some (d', lg)
    \<and> (if lastGC d = 0 \<or> T = 0 \<or> T <s calculateDBSize dir - lastGC d
        then DB_gc_calls (DB d') = DB_gc_calls (DB d) + n + 1
           \<and> gcCount d' = gcCount d + 1
           \<and> lastGC d' = calculateDBSize dir'
        else d' = d \<and> lg = [])"
proof (cases "lastGC d = 0 \<or> T = 0 \<or> T <s calculateDBSize dir - lastGC d")
  case False
  then show ?thesis by (simp add: newBadger_task_def)
next
  case True
  show ?thesis
  proof (cases err)
    case ErrNoRewrite
    from runGC_NoRewrite [OF nils last [unfolded ErrNoRewrite]] True show ?thesis
      by (simp add: newBadger_task_def)
  next
    case (ErrOther x)
    from runGC_ErrOther [OF nils last [unfolded ErrOther]] True show ?thesis
      by (simp add: newBadger_task_def)
  qed
qed

text \<open>
  Two instances: the first tick of a database whose engine rewrites one file (a pass
  with two engine calls, after which the directory holds 100 bytes of value log), and a
  tick at baseline 100 and size 150 under the threshold of 256 MB (no pass).
\<close>

theorem newBadger_task_pass_witness:
  "(\<exists>d' lg. newBadger_task 268435456 [] [WalkInfo ''/main/000001.vlog'' 100] db_one_rewrite
        = Some (d', lg)
      \<and> DB_gc_calls (DB d') = 2 \<and> gcCount d' = 1 \<and> lastGC d' = 100)
   \<and> (\<exists>d' lg. newBadger_task 268435456 [WalkInfo ''/main/000001.vlog'' 150] []
          (db_nothing_to_reclaim\<lparr>lastGC := 100\<rparr>) = Some (d', lg)
      \<and> d' = db_nothing_to_reclaim\<lparr>lastGC := 100\<rparr> \<and> lg = [])"
proof -
  have "\<forall>j<1. DB_RunValueLogGC (DB db_one_rewrite) (DB_gc_calls (DB db_one_rewrite) + j)
      discardRatio_0_7 = None"
    by (simp add: db_one_rewrite_def engine_one_rewrite_def)
  moreover have "DB_RunValueLogGC (DB db_one_rewrite) (DB_gc_calls (DB db_one_rewrite) + 1)
      discardRatio_0_7 = Some ErrNoRewrite"
    by (simp add: db_one_rewrite_def engine_one_rewrite_def)
  ultimately have first:
    "\<exists>d' lg. newBadger_task 268435456 [] [WalkInfo ''/main/000001.vlog'' 100] db_one_rewrite
        = Some (d', lg)
      \<and> DB_gc_calls (DB d') = 2 \<and> gcCount d' = 1 \<and> lastGC d' = 100"
    using newBadger_task_pass [of 1 db_one_rewrite ErrNoRewrite 268435456 "[]"
        "[WalkInfo ''/main/000001.vlog'' 100]"]
    by (simp add: db_one_rewrite_def engine_one_rewrite_def calculateDBSize_def Ext_def
        numeral_2_eq_2)
  have "\<forall>j<0. DB_RunValueLogGC (DB (db_nothing_to_reclaim\<lparr>lastGC := 100\<rparr>))
      (DB_gc_calls (DB (db_nothing_to_reclaim\<lparr>lastGC := 100\<rparr>)) + j) discardRatio_0_7 = None"
    by simp
  moreover have "DB_RunValueLogGC (DB (db_nothing_to_reclaim\<lparr>lastGC := 100\<rparr>))
      (DB_gc_calls (DB (db_nothing_to_reclaim\<lparr>lastGC := 100\<rparr>)) + 0) discardRatio_0_7
      = Some ErrNoRewrite"
    by (simp add: db_nothing_to_reclaim_def engine_nothing_to_reclaim_def)
  ultimately have second:
    "\<exists>d' lg. newBadger_task 268435456 [WalkInfo ''/main/000001.vlog'' 150] []
          (db_nothing_to_reclaim\<lparr>lastGC := 100\<rparr>) = Some (d', lg)
      \<and> d' = db_nothing_to_reclaim\<lparr>lastGC := 100\<rparr> \<and> lg = []"
    using newBadger_task_pass [of 0 "db_nothing_to_reclaim\<lparr>lastGC := 100\<rparr>" ErrNoRewrite
        268435456 "[WalkInfo ''/main/000001.vlog'' 150]" "[]"]
    by (simp add: db_nothing_to_reclaim_def calculateDBSize_def Ext_def word_sless_alt)
  from first second show ?thesis by (rule conjI)
qed

text \<open>When the engine answers \<open>nil\<close> for ever, a tick that starts a pass never returns.\<close>

lemma newBadger_task_diverges:
  assumes "\<forall>j\<ge>DB_gc_calls (DB d). DB_RunValueLogGC (DB d) j discardRatio_0_7 = None"
    and "lastGC d = 0 \<or> T = 0 \<or> T <s calculateDBSize dir - lastGC d"
  shows "newBadger_task T dir dir' d = None"
  using runGC_diverges [OF assms(1)] assms(2) by (simp add: newBadger_task_def)

text \<open>
  The specification lets a tick after the first one run the pass only when the size
  difference exceeds the threshold or the threshold is zero. On a database whose
  directory holds no table or value-log file the first tick runs the pass and takes the
  baseline 0; the second tick, at size difference 0 and threshold 256 MB, runs the pass
  again (the counter goes from 1 to 2).
\<close>

theorem newBadger_task_zero_baseline:
  "newBadger_task 268435456 [] [] db_nothing_to_reclaim =
     Some (db_nothing_to_reclaim\<lparr>DB := engine_nothing_to_reclaim\<lparr>DB_gc_calls := 1\<rparr>, gcCount := 1\<rparr>,
           [Debug ''starting badger garbage collection''])
   \<and> newBadger_task 268435456 [] []
       (db_nothing_to_reclaim\<lparr>DB := engine_nothing_to_reclaim\<lparr>DB_gc_calls := 1\<rparr>, gcCount := 1\<rparr>) =
     Some (db_nothing_to_reclaim\<lparr>DB := engine_nothing_to_reclaim\<lparr>DB_gc_calls := 2\<rparr>, gcCount := 2\<rparr>,
           [Debug ''starting badger garbage collection''])
   \<and> \<not> ((268435456 :: ByteSize) <s calculateDBSize [] - lastGC
       (db_nothing_to_reclaim\<lparr>DB := engine_nothing_to_reclaim\<lparr>DB_gc_calls := 1\<rparr>, gcCount := 1\<rparr>))
   \<and> (268435456 :: ByteSize) \<noteq> 0"
  by (simp add: newBadger_task_def db_nothing_to_reclaim_def engine_nothing_to_reclaim_def
      runGC_def runGC_flatten_def runGC_loop.simps calculateDBSize_def word_sless_alt)

section \<open>Theorems about the aggregate size trigger\<close>

text \<open>With five different names the map has one entry for each database.\<close>

lemma DiskUsage_distinct:
  assumes "distinct (map (\<lambda>r. name (deref s r)) (databases s))"
  shows "DiskUsage s = map (\<lambda>r. (name (deref s r), size_db (deref s r))) (databases s)"
  using assms by (simp add: DiskUsage_def databases_def)

text \<open>The sum over the map is the same in every order of the visit.\<close>

lemma DiskUsage_sum_any_order:
  "mset vs = mset (map snd (DiskUsage s)) \<Longrightarrow> sum_list vs = sum_list (map snd (DiskUsage s))"
  by (metis sum_mset_sum_list)

text \<open>Sizes that are not negative and do not add up to \<open>2^63\<close> are added without overflow.\<close>

lemma sint_add_in_range:
  fixes a b :: int64
  assumes "0 \<le> sint a" "0 \<le> sint b" "sint a + sint b < 2 ^ 63"
  shows "sint (a + b) = sint a + sint b"
  using assms by (simp add: sint_word_ariths signed_take_bit_int_eq_self)

lemma sint_sum_list_in_range:
  fixes g :: "'a \<Rightarrow> int64"
  assumes "\<forall>r\<in>set rs. 0 \<le> sint (g r)" "(\<Sum>r\<leftarrow>rs. sint (g r)) < 2 ^ 63"
  shows "sint (\<Sum>r\<leftarrow>rs. g r) = (\<Sum>r\<leftarrow>rs. sint (g r)) \<and> 0 \<le> (\<Sum>r\<leftarrow>rs. sint (g r))"
  using assms
proof (induction rs)
  case Nil
  then show ?case by simp
next
  case (Cons r rs)
  have r0: "0 \<le> sint (g r)" using Cons.prems(1) by simp
  have rest: "\<forall>r\<in>set rs. 0 \<le> sint (g r)" using Cons.prems(1) by simp
  have less: "(\<Sum>r\<leftarrow>rs. sint (g r)) < 2 ^ 63" using Cons.prems(2) r0 by simp
  from Cons.IH [OF rest less]
  have ih: "sint (\<Sum>r\<leftarrow>rs. g r) = (\<Sum>r\<leftarrow>rs. sint (g r))" and nonneg: "0 \<le> (\<Sum>r\<leftarrow>rs. sint (g r))"
    by simp_all
  have "sint (g r + (\<Sum>r\<leftarrow>rs. g r)) = sint (g r) + sint (\<Sum>r\<leftarrow>rs. g r)"
    using r0 nonneg ih Cons.prems(2) by (intro sint_add_in_range) simp_all
  with ih r0 nonneg show ?case by simp
qed

lemma sless_diff_in_range:
  fixes n base T :: int64
  assumes "0 \<le> sint n" "0 \<le> sint base"
  shows "(T <s n - base) = (sint T < sint n - sint base)"
proof -
  have "sint n < 2 ^ 63" "sint base < 2 ^ 63"
    using sint_lt [of n] sint_lt [of base] by simp_all
  with assms have "sint (n - base) = sint n - sint base"
    by (simp add: sint_word_ariths signed_take_bit_int_eq_self)
  then show ?thesis by (simp add: word_sless_alt)
qed

text \<open>
  C1. One tick of the aggregate size-triggered GC task with threshold \<open>T\<close>, on a storage
  whose databases have different names: with \<open>n\<close> the sum of the sizes of all databases,
  the function \<open>f\<close> (the full garbage-collection pass) is run if and only if \<open>T = 0\<close> or
  \<open>n\<close> minus the recorded baseline exceeds \<open>T\<close> strictly; it is run once, on the storage
  whose baseline is already \<open>n\<close>; on any other tick the storage, and with it the
  baseline, is unchanged and \<open>f\<close> is not run. The sum, the difference and the comparison
  are those of \<open>ByteSize\<close>; for sizes that are not negative and add up to less than
  \<open>2^63\<close> they are the sum, the difference and the comparison of the integers.
\<close>

theorem watchDBSize_trigger:
  assumes names: "distinct (map (\<lambda>r. name (deref s r)) (databases s))"
  shows "watchDBSize T f s =
      (let n = sum_list (map (\<lambda>r. size_db (deref s r)) (databases s))
       in if T = 0 \<or> T <s n - size_storage s then f (s\<lparr>size_storage := n\<rparr>) else s)
    \<and> ((\<forall>r\<in>set (databases s). 0 \<le> sint (size_db (deref s r)))
        \<and> sum_list (map (\<lambda>r. sint (size_db (deref s r))) (databases s)) < 2 ^ 63
        \<and> 0 \<le> sint (size_storage s)
       \<longrightarrow> (let n = sum_list (map (\<lambda>r. size_db (deref s r)) (databases s))
            in sint n = sum_list (map (\<lambda>r. sint (size_db (deref s r))) (databases s))
             \<and> (T <s n - size_storage s) = (sint T < sint n - sint (size_storage s))))"
proof (intro conjI impI)
  show "watchDBSize T f s =
      (let n = sum_list (map (\<lambda>r. size_db (deref s r)) (databases s))
       in if T = 0 \<or> T <s n - size_storage s then f (s\<lparr>size_storage := n\<rparr>) else s)"
    unfolding watchDBSize_def DiskUsage_distinct [OF names] by (simp add: comp_def)
next
  assume range: "(\<forall>r\<in>set (databases s). 0 \<le> sint (size_db (deref s r)))
        \<and> sum_list (map (\<lambda>r. sint (size_db (deref s r))) (databases s)) < 2 ^ 63
        \<and> 0 \<le> sint (size_storage s)"
  then have r1: "\<forall>r\<in>set (databases s). 0 \<le> sint (size_db (deref s r))"
    and r2: "(\<Sum>r\<leftarrow>databases s. sint (size_db (deref s r))) < 2 ^ 63"
    and r3: "0 \<le> sint (size_storage s)"
    by simp_all
  from sint_sum_list_in_range [OF r1 r2]
  have eq: "sint (\<Sum>r\<leftarrow>databases s. size_db (deref s r)) = (\<Sum>r\<leftarrow>databases s. sint (size_db (deref s r)))"
    and "0 \<le> sint (\<Sum>r\<leftarrow>databases s. size_db (deref s r))"
    by simp_all
  from sless_diff_in_range [OF this(2) r3, of T] eq
  show "let n = sum_list (map (\<lambda>r. size_db (deref s r)) (databases s))
        in sint n = sum_list (map (\<lambda>r. sint (size_db (deref s r))) (databases s))
         \<and> (T <s n - size_storage s) = (sint T < sint n - sint (size_storage s))"
    by (simp add: Let_def)
qed

text \<open>
  The example storage holds 256 MB + 1 byte. At baseline 0 and threshold 256 MB the
  difference is one byte above the threshold and the pass runs; at baseline 1 the
  difference equals the threshold and nothing happens.
\<close>

lemma storage_example_names:
  "distinct (map (\<lambda>r. name (deref storage_example r)) (databases storage_example))"
  by (simp add: storage_example_def db_example_def databases_def)

lemma storage_example_names_baseline:
  "distinct (map (\<lambda>r. name (deref (storage_example\<lparr>size_storage := 1\<rparr>) r))
     (databases (storage_example\<lparr>size_storage := 1\<rparr>)))"
  by (simp add: storage_example_def db_example_def databases_def)

theorem watchDBSize_trigger_witness:
  "watchDBSize 268435456 CollectGarbage storage_example =
     storage_example\<lparr>size_storage := 268435457, calls := [GarbageCollection]\<rparr>
   \<and> watchDBSize 268435456 CollectGarbage (storage_example\<lparr>size_storage := 1\<rparr>) =
     storage_example\<lparr>size_storage := 1\<rparr>
   \<and> sint (\<Sum>r\<leftarrow>databases storage_example. size_db (deref storage_example r)) = 268435457
   \<and> ((268435456 :: int64) <s (\<Sum>r\<leftarrow>databases storage_example. size_db (deref storage_example r))
         - size_storage storage_example)"
proof -
  have range: "(\<forall>r\<in>set (databases storage_example). 0 \<le> sint (size_db (deref storage_example r)))
    \<and> (\<Sum>r\<leftarrow>databases storage_example. sint (size_db (deref storage_example r))) < 2 ^ 63
    \<and> 0 \<le> sint (size_storage storage_example)"
    by (simp add: storage_example_def db_example_def databases_def size_db_def)
  note t1 = watchDBSize_trigger [OF storage_example_names, of 268435456 CollectGarbage]
  note t2 = watchDBSize_trigger [OF storage_example_names_baseline, of 268435456 CollectGarbage]
  have a: "watchDBSize 268435456 CollectGarbage storage_example =
     storage_example\<lparr>size_storage := 268435457, calls := [GarbageCollection]\<rparr>"
    using t1 [THEN conjunct1]
    by (simp add: storage_example_def db_example_def databases_def size_db_def CollectGarbage_def
        word_sless_alt)
  have b: "watchDBSize 268435456 CollectGarbage (storage_example\<lparr>size_storage := 1\<rparr>) =
     storage_example\<lparr>size_storage := 1\<rparr>"
    using t2 [THEN conjunct1]
    by (simp add: storage_example_def db_example_def databases_def size_db_def word_sless_alt)
  from t1 [THEN conjunct2, rule_format, OF range]
  have c: "sint (\<Sum>r\<leftarrow>databases storage_example. size_db (deref storage_example r)) = 268435457
   \<and> ((268435456 :: int64) <s (\<Sum>r\<leftarrow>databases storage_example. size_db (deref storage_example r))
         - size_storage storage_example)"
    by (simp add: storage_example_def db_example_def databases_def size_db_def Let_def)
  from a b c show ?thesis by simp
qed

section \<open>Theorems about the eviction task\<close>

lemma f64_ge_not_less: "f64_ge a b \<Longrightarrow> \<not> f64_less a b"
  by (cases a; cases b) simp_all

text \<open>
  C2. One tick of the eviction task on a storage whose trees, dictionaries, dimensions
  and segments databases have a cache (as \<open>New\<close> builds them), with \<open>ratio\<close> the used
  process memory divided by the total system memory: when \<open>ratio\<close> is strictly below the
  threshold, the tick makes no call at all; when \<open>ratio\<close> is greater than or equal to
  the threshold, the trees cache receives one eviction call with the configured
  percentage, then the dictionaries, dimensions and segments caches receive one
  write-back call each, in this order, and the tick ends with the collection of the Go
  runtime.
\<close>

theorem evictionTask_trigger:
  assumes caches: "Cache (trees s) \<noteq> None" "Cache (dicts s) \<noteq> None"
      "Cache (dimensions s) \<noteq> None" "Cache (segments s) \<noteq> None"
  shows "let ratio = fdiv (to_float64 alloc) (to_float64 memTotal);
             threshold = CacheEvictThreshold (config s)
         in (f64_less ratio threshold \<longrightarrow>
               evictionTask to_float64 fdiv memTotal alloc s = Inr s)
          \<and> (f64_ge ratio threshold \<longrightarrow>
               evictionTask to_float64 fdiv memTotal alloc s =
                 Inr (s\<lparr>calls := calls s @
                   [CacheEvict TreesRef (CacheEvictVolume (config s)),
                    CacheWriteBack DictsRef, CacheWriteBack DimensionsRef,
                    CacheWriteBack SegmentsRef, RuntimeGC]\<rparr>))"
  using caches
  by (auto simp: evictionTask_def Let_def and_then_def Evict_def WriteBack_def
      dest: f64_ge_not_less)

text \<open>
  With the threshold 1/4: at 1 byte used of 4 the ratio equals the threshold and the
  eviction fires; at 1 byte used of 8 the tick does nothing.
\<close>

theorem evictionTask_trigger_witness:
  "evictionTask exact_to_float64 exact_fdiv 4 1 storage_example =
     Inr (storage_example\<lparr>calls :=
       [CacheEvict TreesRef (Finite (1 / 2)), CacheWriteBack DictsRef,
        CacheWriteBack DimensionsRef, CacheWriteBack SegmentsRef, RuntimeGC]\<rparr>)
   \<and> evictionTask exact_to_float64 exact_fdiv 8 1 storage_example = Inr storage_example"
proof -
  have caches: "Cache (trees storage_example) \<noteq> None" "Cache (dicts storage_example) \<noteq> None"
      "Cache (dimensions storage_example) \<noteq> None" "Cache (segments storage_example) \<noteq> None"
    by (simp_all add: storage_example_def db_example_def)
  have at: "f64_ge (exact_fdiv (exact_to_float64 1) (exact_to_float64 4))
      (CacheEvictThreshold (config storage_example))"
    by (simp add: exact_to_float64_def storage_example_def)
  have below: "f64_less (exact_fdiv (exact_to_float64 1) (exact_to_float64 8))
      (CacheEvictThreshold (config storage_example))"
    by (simp add: exact_to_float64_def storage_example_def)
  from evictionTask_trigger [OF caches, of exact_fdiv exact_to_float64 1 4] at
  have a: "evictionTask exact_to_float64 exact_fdiv 4 1 storage_example =
     Inr (storage_example\<lparr>calls :=
       [CacheEvict TreesRef (Finite (1 / 2)), CacheWriteBack DictsRef,
        CacheWriteBack DimensionsRef, CacheWriteBack SegmentsRef, RuntimeGC]\<rparr>)"
    by (simp add: Let_def storage_example_def)
  from evictionTask_trigger [OF caches, of exact_fdiv exact_to_float64 1 8] below
  have b: "evictionTask exact_to_float64 exact_fdiv 8 1 storage_example = Inr storage_example"
    by (simp add: Let_def)
  from a b show ?thesis by simp
qed


section \<open>Theorems about the write-back task\<close>

lemma deref_calls: "deref (s\<lparr>calls := c\<rparr>) r = deref s r"
  by (cases r) simp_all

lemma writeBackTask_loop_calls:
  "writeBackTask_loop rs s =
     Inr (s\<lparr>calls := calls s @ map CacheWriteBack (filter (\<lambda>r. Cache (deref s r) \<noteq> None) rs)\<rparr>)"
proof (induction rs arbitrary: s)
  case Nil
  then show ?case by simp
next
  case (Cons r rs)
  show ?case
  proof (cases "Cache (deref s r)")
    case None
    with Cons show ?thesis by simp
  next
    case (Some c)
    with Cons [of "s\<lparr>calls := calls s @ [CacheWriteBack r]\<rparr>"] show ?thesis
      by (simp add: WriteBack_def and_then_def deref_calls)
  qed
qed

text \<open>
  One tick of the write-back task never panics and writes back the cache of every
  database that has one, in the order of \<open>databases\<close>.
\<close>

lemma writeBackTask_calls:
  "writeBackTask s =
     Inr (s\<lparr>calls := calls s @
       map CacheWriteBack (filter (\<lambda>r. Cache (deref s r) \<noteq> None) (databases s))\<rparr>)"
  by (simp add: writeBackTask_def writeBackTask_loop_calls)

section \<open>Theorems about periodic tasks\<close>

text \<open>
  The loop runs the body once for every timer expiry that its \<open>select\<close> takes before it
  takes the stop signal, and resets the timer to the same interval after each run.
\<close>

lemma periodicTask_loop_runs:
  assumes "runs f (length (takeWhile (\<lambda>c. c = TimerExpired) selects)) st = Some st'"
  shows "periodicTask_loop interval f selects st tr =
    (st',
     tr @ concat (replicate (length (takeWhile (\<lambda>c. c = TimerExpired) selects)) [RunBody, TimerReset interval])
        @ (if StopSignal \<in> set selects then [TimerStop, WaitGroupDone] else []),
     if StopSignal \<in> set selects then Exited else Selecting)"
  using assms
proof (induction selects arbitrary: st tr)
  case Nil
  then show ?case by simp
next
  case (Cons c selects)
  show ?case
  proof (cases c)
    case StopSignal
    with Cons.prems show ?thesis by simp
  next
    case TimerExpired
    with Cons.prems obtain st1 where f: "f st = Some st1"
      and r: "runs f (length (takeWhile (\<lambda>c. c = TimerExpired) selects)) st1 = Some st'"
      by (auto split: option.splits)
    from Cons.IH [OF r, of "tr @ [RunBody, TimerReset interval]"] f TimerExpired
    show ?thesis by simp
  qed
qed

text \<open>
  C7. A periodic task whose stop signal has fired before its start runs its body zero
  times: it stops its timer and reports to the wait group. Otherwise it runs the body
  once at once; then every iteration of its loop either takes the stop signal, and the
  task returns without another run of the body whatever happens afterwards, or takes the
  timer expiry, runs the body once and resets the timer to the same interval. With \<open>k\<close>
  timer expiries taken before the stop signal the body runs \<open>k + 1\<close> times in all.
\<close>

theorem periodicTask_schedule:
  "periodicTask interval f True selects st =
      (st, [NewTimer interval, TimerStop, WaitGroupDone], Exited)
   \<and> (runs f (Suc (length (takeWhile (\<lambda>c. c = TimerExpired) selects))) st = Some st' \<longrightarrow>
       periodicTask interval f False selects st =
        (st',
         [NewTimer interval, RunBody]
           @ concat (replicate (length (takeWhile (\<lambda>c. c = TimerExpired) selects))
               [RunBody, TimerReset interval])
           @ (if StopSignal \<in> set selects then [TimerStop, WaitGroupDone] else []),
         if StopSignal \<in> set selects then Exited else Selecting))"
proof (intro conjI impI)
  show "periodicTask interval f True selects st =
      (st, [NewTimer interval, TimerStop, WaitGroupDone], Exited)"
    by (simp add: periodicTask_def)
next
  assume "runs f (Suc (length (takeWhile (\<lambda>c. c = TimerExpired) selects))) st = Some st'"
  then obtain st1 where f: "f st = Some st1"
    and r: "runs f (length (takeWhile (\<lambda>c. c = TimerExpired) selects)) st1 = Some st'"
    by (auto split: option.splits)
  from periodicTask_loop_runs [OF r, of interval "[NewTimer interval, RunBody]"] f
  show "periodicTask interval f False selects st =
        (st',
         [NewTimer interval, RunBody]
           @ concat (replicate (length (takeWhile (\<lambda>c. c = TimerExpired) selects))
               [RunBody, TimerReset interval])
           @ (if StopSignal \<in> set selects then [TimerStop, WaitGroupDone] else []),
         if StopSignal \<in> set selects then Exited else Selecting)"
    by (simp add: periodicTask_def)
qed

text \<open>
  A counter as the body, interval 5: stopped before the start, no run; two expiries and
  then the stop signal, three runs, and the expiry after the stop signal is not served.
\<close>

theorem periodicTask_schedule_witness:
  "periodicTask 5 (\<lambda>n :: nat. Some (Suc n)) True [TimerExpired, StopSignal] 0 =
      (0, [NewTimer 5, TimerStop, WaitGroupDone], Exited)
   \<and> periodicTask 5 (\<lambda>n :: nat. Some (Suc n)) False
        [TimerExpired, TimerExpired, StopSignal, TimerExpired] 0 =
      (3, [NewTimer 5, RunBody, RunBody, TimerReset 5, RunBody, TimerReset 5,
           TimerStop, WaitGroupDone], Exited)"
proof -
  have r: "runs (\<lambda>n :: nat. Some (Suc n))
      (Suc (length (takeWhile (\<lambda>c. c = TimerExpired)
        [TimerExpired, TimerExpired, StopSignal, TimerExpired]))) 0 = Some 3"
    by (simp add: numeral_3_eq_3)
  from periodicTask_schedule [of 5 "\<lambda>n :: nat. Some (Suc n)" "[TimerExpired, StopSignal]" 0 0,
      THEN conjunct1]
    periodicTask_schedule [of 5 "\<lambda>n :: nat. Some (Suc n)"
      "[TimerExpired, TimerExpired, StopSignal, TimerExpired]" 0 3, THEN conjunct2, rule_format, OF r]
  show ?thesis by (simp add: numeral_2_eq_2)
qed


section \<open>Theorems about Close\<close>

text \<open>
  An interleaving holds the calls of its goroutines and nothing else, and keeps the
  calls of each goroutine in their order; running the goroutines one after the other is
  one of the interleavings.
\<close>

lemma set_interleavings: "t \<in> interleavings xss \<Longrightarrow> set t = \<Union> (set ` set xss)"
proof (induction xss arbitrary: t)
  case Nil
  then show ?case by simp
next
  case (Cons xs xss)
  then obtain ys where ys: "ys \<in> interleavings xss" and t: "t \<in> shuffles xs ys" by auto
  from set_shuffles [OF t] Cons.IH [OF ys] show ?case by simp
qed

lemma filter_interleavings:
  "t \<in> interleavings xss \<Longrightarrow> filter P t \<in> interleavings (map (filter P) xss)"
proof (induction xss arbitrary: t)
  case Nil
  then show ?case by simp
next
  case (Cons xs xss)
  then obtain ys where ys: "ys \<in> interleavings xss" and t: "t \<in> shuffles xs ys" by auto
  from t have "filter P t \<in> filter P ` shuffles xs ys" by (rule imageI)
  then have "filter P t \<in> shuffles (filter P xs) (filter P ys)" by (simp only: filter_shuffles)
  with Cons.IH [OF ys] show ?case by auto
qed

lemma concat_in_interleavings: "concat xss \<in> interleavings xss"
proof (induction xss)
  case Nil
  then show ?case by simp
next
  case (Cons xs xss)
  have "xs @ concat xss \<in> shuffles xs (concat xss)"
  proof (induction xs)
    case Nil
    then show ?case by simp
  next
    case (Cons x xs)
    then show ?case by (simp add: Cons_in_shuffles_leftI)
  qed
  with Cons show ?case by auto
qed

text \<open>\<open>close\<close> of a database makes calls for this database only.\<close>

lemma call_db_close_db: "c \<in> set (close_db s r) \<Longrightarrow> call_db c = Some r"
  by (auto simp: close_db_def split: option.splits)

lemma filter_close_db_same: "filter (\<lambda>c. call_db c = Some r) (close_db s r) = close_db s r"
  by (simp add: close_db_def split: option.splits)

lemma filter_close_db_other: "r' \<noteq> r \<Longrightarrow> filter (\<lambda>c. call_db c = Some r) (close_db s r') = []"
  by (simp add: close_db_def split: option.splits)

text \<open>
  When the \<open>goDB\<close> of \<open>Close\<close> has returned, the calls made for a database other than the
  dictionaries are its complete \<open>close\<close>, and no call was made for the dictionaries.
\<close>

lemma goDB_project:
  assumes t: "t \<in> goDB (\<lambda>d. if d \<noteq> DictsRef then close_db s d else []) s"
  shows "filter (\<lambda>c. call_db c = Some r) t = (if r = DictsRef then [] else close_db s r)"
proof -
  from filter_interleavings [OF t [unfolded goDB_def], of "\<lambda>c. call_db c = Some r"]
  show ?thesis
    by (cases r) (simp_all add: databases_def filter_close_db_same filter_close_db_other)
qed

lemma Close_calls_nonempty: "Close_calls s \<noteq> {}"
  using concat_in_interleavings [of "map (\<lambda>d. if d \<noteq> DictsRef then close_db s d else []) (databases s)"]
  by (auto simp: Close_calls_def goDB_def)

text \<open>
  C3. In every execution of \<open>Close\<close> the calls of the closing phase split in two: the
  second part is the \<open>close\<close> of the dictionaries database (the flush of its cache, the
  close of its engine), and the first part holds no call for the dictionaries and, for
  each of the other databases, its whole \<open>close\<close> attempt, with the error line when its
  engine failed. So the close of the dictionaries begins after every other database has
  completed its own, whatever the engines answer.
\<close>

theorem Close_dicts_last:
  "\<forall>t\<in>Close_calls s. \<exists>t1. t = t1 @ close_db s DictsRef
     \<and> (\<forall>c\<in>set t1. call_db c \<noteq> Some DictsRef)
     \<and> (\<forall>r\<in>set (databases s). r \<noteq> DictsRef \<longrightarrow>
          filter (\<lambda>c. call_db c = Some r) t1 = close_db s r)"
proof
  fix t assume "t \<in> Close_calls s"
  then obtain t1 where t1: "t1 \<in> goDB (\<lambda>d. if d \<noteq> DictsRef then close_db s d else []) s"
    and t: "t = t1 @ close_db s DictsRef"
    by (auto simp: Close_calls_def)
  from goDB_project [OF t1, of DictsRef] have "\<forall>c\<in>set t1. call_db c \<noteq> Some DictsRef"
    by (simp add: filter_empty_conv)
  moreover have "\<forall>r\<in>set (databases s). r \<noteq> DictsRef \<longrightarrow>
      filter (\<lambda>c. call_db c = Some r) t1 = close_db s r"
    using goDB_project [OF t1] by simp
  ultimately show "\<exists>t1. t = t1 @ close_db s DictsRef
     \<and> (\<forall>c\<in>set t1. call_db c \<noteq> Some DictsRef)
     \<and> (\<forall>r\<in>set (databases s). r \<noteq> DictsRef \<longrightarrow>
          filter (\<lambda>c. call_db c = Some r) t1 = close_db s r)"
    using t by blast
qed


text \<open>The example run is one of the executions of \<open>Close\<close> on the example storage.\<close>

lemma close_run_example_possible: "close_run_example \<in> Close_calls storage_close_error"
proof -
  let ?F = "CacheFlush" and ?C = "DBClose"
  let ?L = "LoggerError SegmentsRef ''closing database'' (ErrOther ''sync failed'')"
  let ?s = storage_close_error
  have cm: "close_db ?s MainRef = [?C MainRef]"
    and cd: "close_db ?s DimensionsRef = [?F DimensionsRef, ?C DimensionsRef]"
    and cs: "close_db ?s SegmentsRef = [?F SegmentsRef, ?C SegmentsRef, ?L]"
    and ct: "close_db ?s TreesRef = [?F TreesRef, ?C TreesRef]"
    and ci: "close_db ?s DictsRef = [?F DictsRef, ?C DictsRef]"
    by (simp_all add: close_db_def storage_close_error_def storage_example_def db_example_def
        engine_nothing_to_reclaim_def)
  have y4: "[?F TreesRef, ?C TreesRef] \<in> interleavings [[], close_db ?s TreesRef]"
    by (simp add: ct)
  have "[?F TreesRef, ?F SegmentsRef, ?C SegmentsRef, ?C TreesRef, ?L]
      \<in> shuffles (close_db ?s SegmentsRef) [?F TreesRef, ?C TreesRef]"
    by (simp add: cs Cons_in_shuffles_iff)
  with y4 have y2: "[?F TreesRef, ?F SegmentsRef, ?C SegmentsRef, ?C TreesRef, ?L]
      \<in> interleavings [close_db ?s SegmentsRef, [], close_db ?s TreesRef]"
    by (subst interleavings.simps) (rule UN_I)
  have "[?F TreesRef, ?F SegmentsRef, ?F DimensionsRef, ?C SegmentsRef, ?C TreesRef, ?L, ?C DimensionsRef]
      \<in> shuffles (close_db ?s DimensionsRef)
          [?F TreesRef, ?F SegmentsRef, ?C SegmentsRef, ?C TreesRef, ?L]"
    by (simp add: cd Cons_in_shuffles_iff)
  with y2 have y1: "[?F TreesRef, ?F SegmentsRef, ?F DimensionsRef, ?C SegmentsRef, ?C TreesRef, ?L, ?C DimensionsRef]
      \<in> interleavings [close_db ?s DimensionsRef, close_db ?s SegmentsRef, [], close_db ?s TreesRef]"
    by (subst interleavings.simps) (rule UN_I)
  have "[?F TreesRef, ?C MainRef, ?F SegmentsRef, ?F DimensionsRef, ?C SegmentsRef, ?C TreesRef, ?L, ?C DimensionsRef]
      \<in> shuffles (close_db ?s MainRef)
          [?F TreesRef, ?F SegmentsRef, ?F DimensionsRef, ?C SegmentsRef, ?C TreesRef, ?L, ?C DimensionsRef]"
    by (simp add: cm Cons_in_shuffles_iff)
  with y1 have "[?F TreesRef, ?C MainRef, ?F SegmentsRef, ?F DimensionsRef, ?C SegmentsRef, ?C TreesRef, ?L, ?C DimensionsRef]
      \<in> interleavings [close_db ?s MainRef, close_db ?s DimensionsRef, close_db ?s SegmentsRef, [],
            close_db ?s TreesRef]"
    by (subst interleavings.simps) (rule UN_I)
  then have "[?F TreesRef, ?C MainRef, ?F SegmentsRef, ?F DimensionsRef, ?C SegmentsRef, ?C TreesRef, ?L, ?C DimensionsRef]
      \<in> goDB (\<lambda>d. if d \<noteq> DictsRef then close_db ?s d else []) ?s"
    by (simp add: goDB_def databases_def)
  then have "[?F TreesRef, ?C MainRef, ?F SegmentsRef, ?F DimensionsRef, ?C SegmentsRef, ?C TreesRef, ?L, ?C DimensionsRef]
      @ close_db ?s DictsRef \<in> Close_calls ?s"
    unfolding Close_calls_def by (rule imageI)
  then show ?thesis by (simp add: ci close_run_example_def)
qed

theorem Close_dicts_last_witness:
  "close_run_example \<in> Close_calls storage_close_error
   \<and> (\<exists>t1. close_run_example = t1 @ [CacheFlush DictsRef, DBClose DictsRef]
        \<and> filter (\<lambda>c. call_db c = Some DictsRef) t1 = []
        \<and> filter (\<lambda>c. call_db c = Some SegmentsRef) t1 =
            [CacheFlush SegmentsRef, DBClose SegmentsRef,
             LoggerError SegmentsRef ''closing database'' (ErrOther ''sync failed'')])"
proof -
  from Close_dicts_last [THEN bspec, OF close_run_example_possible]
  obtain t1 where t: "close_run_example = t1 @ close_db storage_close_error DictsRef"
    and no_dicts: "\<forall>c\<in>set t1. call_db c \<noteq> Some DictsRef"
    and others: "\<forall>r\<in>set (databases storage_close_error). r \<noteq> DictsRef \<longrightarrow>
          filter (\<lambda>c. call_db c = Some r) t1 = close_db storage_close_error r"
    by blast
  have "close_db storage_close_error DictsRef = [CacheFlush DictsRef, DBClose DictsRef]"
    by (simp add: close_db_def storage_close_error_def storage_example_def db_example_def
        engine_nothing_to_reclaim_def)
  with t have a: "close_run_example = t1 @ [CacheFlush DictsRef, DBClose DictsRef]" by simp
  from no_dicts have b: "filter (\<lambda>c. call_db c = Some DictsRef) t1 = []"
    by (simp add: filter_empty_conv)
  from others have "filter (\<lambda>c. call_db c = Some SegmentsRef) t1 =
      close_db storage_close_error SegmentsRef"
    by (simp add: databases_def)
  then have c: "filter (\<lambda>c. call_db c = Some SegmentsRef) t1 =
            [CacheFlush SegmentsRef, DBClose SegmentsRef,
             LoggerError SegmentsRef ''closing database'' (ErrOther ''sync failed'')]"
    by (simp add: close_db_def storage_close_error_def storage_example_def db_example_def)
  from a b c close_run_example_possible show ?thesis by blast
qed

text \<open>In every execution the calls made for a database are its \<open>close\<close>, once.\<close>

lemma Close_calls_project:
  assumes "t \<in> Close_calls s"
  shows "filter (\<lambda>c. call_db c = Some r) t = close_db s r"
proof -
  from assms obtain t1 where t1: "t1 \<in> goDB (\<lambda>d. if d \<noteq> DictsRef then close_db s d else []) s"
    and t: "t = t1 @ close_db s DictsRef"
    by (auto simp: Close_calls_def)
  show ?thesis
  proof (cases "r = DictsRef")
    case True
    with goDB_project [OF t1, of r] t show ?thesis by (simp add: filter_close_db_same)
  next
    case False
    with goDB_project [OF t1, of r] t show ?thesis by (simp add: filter_close_db_other)
  qed
qed

lemma DBClose_in_close_db: "DBClose r \<in> set (close_db s r)"
  by (simp add: close_db_def)

lemma LoggerError_in_close_db:
  "DB_Close (DB (deref s r)) = Some err \<Longrightarrow> LoggerError r ''closing database'' err \<in> set (close_db s r)"
  by (simp add: close_db_def)

text \<open>
  C8. \<open>Close\<close>, called on a storage that is not closed yet and whose periodic tasks
  return after the stop signal, returns \<open>nil\<close> whatever the engines answer to their
  \<open>Close\<close>. In every execution the calls made for each of the five databases are its
  whole \<open>close\<close>, once: the engine of every database is closed, also when the engine of
  another database has failed, and a failure is written to the log of the database and
  goes no further.
\<close>

theorem Close_returns_nil:
  assumes open_stop: "\<not> stop s" and exit: "tasks_exit"
  shows "\<exists>finals. Close tasks_exit s = Some (Inr (None, finals)) \<and> finals \<noteq> {}
     \<and> (\<forall>s'\<in>finals. \<exists>t. s' = s\<lparr>stop := True, calls := calls s @ t\<rparr>
          \<and> (\<forall>r\<in>set (databases s).
                filter (\<lambda>c. call_db c = Some r) t = close_db s r
              \<and> DBClose r \<in> set t
              \<and> (\<forall>err. DB_Close (DB (deref s r)) = Some err \<longrightarrow>
                    LoggerError r ''closing database'' err \<in> set t)))"
proof -
  let ?finals = "(\<lambda>t. s\<lparr>stop := True, calls := calls s @ t\<rparr>) ` Close_calls s"
  have ret: "Close tasks_exit s = Some (Inr (None, ?finals))"
    using assms by (simp add: Close_def)
  have ne: "?finals \<noteq> {}" using Close_calls_nonempty [of s] by simp
  have "\<exists>t. s' = s\<lparr>stop := True, calls := calls s @ t\<rparr>
          \<and> (\<forall>r\<in>set (databases s).
                filter (\<lambda>c. call_db c = Some r) t = close_db s r
              \<and> DBClose r \<in> set t
              \<and> (\<forall>err. DB_Close (DB (deref s r)) = Some err \<longrightarrow>
                    LoggerError r ''closing database'' err \<in> set t))"
    if "s' \<in> ?finals" for s'
  proof -
    from that obtain t where t: "t \<in> Close_calls s"
      and s': "s' = s\<lparr>stop := True, calls := calls s @ t\<rparr>" by auto
    have sub: "set (close_db s r) \<subseteq> set t" for r
    proof -
      have "set (filter (\<lambda>c. call_db c = Some r) t) \<subseteq> set t" by (rule filter_is_subset)
      then show ?thesis by (simp only: Close_calls_project [OF t])
    qed
    have "filter (\<lambda>c. call_db c = Some r) t = close_db s r
              \<and> DBClose r \<in> set t
              \<and> (\<forall>err. DB_Close (DB (deref s r)) = Some err \<longrightarrow>
                    LoggerError r ''closing database'' err \<in> set t)" for r
      using Close_calls_project [OF t, of r] sub [of r] DBClose_in_close_db [of r s]
        LoggerError_in_close_db [of s r]
      by blast
    with s' show ?thesis by blast
  qed
  with ret ne show ?thesis by blast
qed

theorem Close_returns_nil_witness:
  "\<exists>finals. Close True storage_close_error = Some (Inr (None, finals))
     \<and> storage_close_error\<lparr>stop := True, calls := close_run_example\<rparr> \<in> finals
     \<and> list_all (\<lambda>r. DBClose r \<in> set close_run_example)
          [MainRef, DimensionsRef, SegmentsRef, DictsRef, TreesRef]
     \<and> LoggerError SegmentsRef ''closing database'' (ErrOther ''sync failed'')
          \<in> set close_run_example"
proof -
  have ns: "\<not> stop storage_close_error"
    by (simp add: storage_close_error_def storage_example_def)
  from Close_returns_nil [OF ns, of True]
  obtain finals where ret: "Close True storage_close_error = Some (Inr (None, finals))"
    and all: "\<forall>s'\<in>finals. \<exists>t. s' = storage_close_error\<lparr>stop := True,
            calls := calls storage_close_error @ t\<rparr>
          \<and> (\<forall>r\<in>set (databases storage_close_error).
                filter (\<lambda>c. call_db c = Some r) t = close_db storage_close_error r
              \<and> DBClose r \<in> set t
              \<and> (\<forall>err. DB_Close (DB (deref storage_close_error r)) = Some err \<longrightarrow>
                    LoggerError r ''closing database'' err \<in> set t))"
    by blast
  have "finals = (\<lambda>t. storage_close_error\<lparr>stop := True, calls := calls storage_close_error @ t\<rparr>)
      ` Close_calls storage_close_error"
    using ret ns by (simp add: Close_def)
  with close_run_example_possible
  have "storage_close_error\<lparr>stop := True, calls := calls storage_close_error @ close_run_example\<rparr>
      \<in> finals" by blast
  then have mem: "storage_close_error\<lparr>stop := True, calls := close_run_example\<rparr> \<in> finals"
    by (simp add: storage_close_error_def storage_example_def)
  from all [THEN bspec, OF mem] obtain t
    where eq: "storage_close_error\<lparr>stop := True, calls := close_run_example\<rparr> =
        storage_close_error\<lparr>stop := True, calls := calls storage_close_error @ t\<rparr>"
      and props: "\<forall>r\<in>set (databases storage_close_error).
                filter (\<lambda>c. call_db c = Some r) t = close_db storage_close_error r
              \<and> DBClose r \<in> set t
              \<and> (\<forall>err. DB_Close (DB (deref storage_close_error r)) = Some err \<longrightarrow>
                    LoggerError r ''closing database'' err \<in> set t)"
    by blast
  from eq have "calls (storage_close_error\<lparr>stop := True, calls := close_run_example\<rparr>) =
      calls (storage_close_error\<lparr>stop := True, calls := calls storage_close_error @ t\<rparr>)"
    by (rule arg_cong)
  then have t: "t = close_run_example"
    by (simp add: storage_close_error_def storage_example_def)
  from props [unfolded t] have "list_all (\<lambda>r. DBClose r \<in> set close_run_example)
          [MainRef, DimensionsRef, SegmentsRef, DictsRef, TreesRef]"
    by (simp add: databases_def)
  moreover from props [unfolded t, THEN bspec, of SegmentsRef]
  have "LoggerError SegmentsRef ''closing database'' (ErrOther ''sync failed'')
          \<in> set close_run_example"
    by (simp add: databases_def storage_close_error_def)
  ultimately show ?thesis using ret mem by blast
qed


section \<open>Theorems about New\<close>

text \<open>A periodic task returns only when one of its \<open>select\<close> statements takes the stop signal.\<close>

lemma periodicTask_loop_Exited:
  "snd (snd (periodicTask_loop interval f selects st tr)) = Exited \<Longrightarrow> StopSignal \<in> set selects"
proof (induction selects arbitrary: st tr)
  case Nil
  then show ?case by simp
next
  case (Cons c selects)
  show ?case
  proof (cases c)
    case StopSignal
    then show ?thesis by simp
  next
    case TimerExpired
    show ?thesis
    proof (cases "f st")
      case None
      with Cons.prems TimerExpired show ?thesis by simp
    next
      case (Some st')
      with Cons.prems TimerExpired
      have "snd (snd (periodicTask_loop interval f selects st' (tr @ [RunBody, TimerReset interval]))) = Exited"
        by simp
      from Cons.IH [OF this] show ?thesis by simp
    qed
  qed
qed

lemma periodicTask_Exited:
  assumes "snd (snd (periodicTask interval f stopped selects st)) = Exited"
  shows "stopped \<or> StopSignal \<in> set selects"
proof (cases stopped)
  case True
  then show ?thesis by simp
next
  case False
  show ?thesis
  proof (cases "f st")
    case None
    with assms False show ?thesis by (simp add: periodicTask_def)
  next
    case (Some st')
    with assms False
    have "snd (snd (periodicTask_loop interval f selects st' [NewTimer interval, RunBody])) = Exited"
      by (simp add: periodicTask_def)
    from periodicTask_loop_Exited [OF this] show ?thesis by simp
  qed
qed

text \<open>
  \<open>newBadger\<close> returns an error exactly when the directory or the engine cannot be
  opened. When they can, it runs the GC task of the database in its own goroutine: it
  does not return before the task has taken the stop signal, and then it panics in
  \<open>s.wg.Done()\<close> unless the wait group counts a task.
\<close>

lemma newBadger_fails:
  "\<not> opens env nm \<Longrightarrow> \<exists>err. newBadger env T nm p codec w = Some (Inr (Inl err), w)"
  by (auto simp: newBadger_def opens_def split: option.splits sum.splits)

lemma newBadger_opened:
  assumes "opens env nm"
  shows "newBadger env T nm p codec w = None
    \<or> (\<exists>w'. newBadger env T nm p codec w = Some (Inl NegativeWaitGroupCounter, w') \<and> wg w = 0)
    \<or> (\<exists>d w'. newBadger env T nm p codec w = Some (Inr (Inr d), w') \<and> 0 < wg w)"
proof -
  from assms obtain badgerDB where mk: "MkdirAll env nm = None" and op: "badger_Open env nm = Inr badgerDB"
    by (cases "badger_Open env nm") (auto simp: opens_def)
  show ?thesis
    by (cases "wg w")
      (auto simp: newBadger_def mk op Let_def split: prod.splits task_status.splits)
qed

lemma newBadger_blocks:
  assumes "opens env nm" and "\<not> task_stopped env nm" and "StopSignal \<notin> set (task_selects env nm)"
  shows "newBadger env T nm p codec w = None"
proof -
  from assms(1) obtain badgerDB where mk: "MkdirAll env nm = None" and op: "badger_Open env nm = Inr badgerDB"
    by (cases "badger_Open env nm") (auto simp: opens_def)
  let ?d = "\<lparr>name = nm, DB = badgerDB,
              Cache = (case codec of None \<Rightarrow> None | Some c \<Rightarrow> Some (NewCache p)),
              lastGC = 0, gcCount = 0\<rparr>"
  let ?r = "maintenanceTask (badgerGCTaskInterval env) (newBadger_tick (walks env nm) T)
      (task_stopped env nm) (task_selects env nm) (False, ?d, 0)"
  have "snd (snd ?r) \<noteq> Exited"
    using periodicTask_Exited [of "badgerGCTaskInterval env" _ "task_stopped env nm"
        "task_selects env nm" "(False, ?d, 0)"] assms(2,3)
    unfolding maintenanceTask_def by blast
  then show ?thesis
    by (cases ?r) (auto simp: newBadger_def mk op Let_def split: prod.splits task_status.splits)
qed

text \<open>
  The wait group of a storage under construction counts no task, so \<open>New\<close> never gets
  past its first call of \<open>newBadger\<close>: it returns the error of the main database, or
  does not return, or panics. It returns no storage, and it returns an error only with
  nothing opened and nothing started.
\<close>

lemma New_first_step:
  "New c env =
    (case newBadger env 268435456 ''main'' [] None \<lparr>open_dbs = [], go_tasks = [], wg = 0\<rparr> of
       None \<Rightarrow> None
     | Some (Inl pn, w) \<Rightarrow> Some (Inl pn, w)
     | Some (Inr r, w) \<Rightarrow> Some (Inr (Inl (projl r)), w))"
proof (cases "opens env ''main''")
  case False
  from newBadger_fails [OF this, of 268435456 "[]" None "\<lparr>open_dbs = [], go_tasks = [], wg = 0\<rparr>"]
  show ?thesis by (auto simp: New_def)
next
  case True
  from newBadger_opened [OF this, of 268435456 "[]" None "\<lparr>open_dbs = [], go_tasks = [], wg = 0\<rparr>"]
  show ?thesis by (auto simp: New_def)
qed

lemma New_returns:
  "(\<exists>err w. New c env = Some (Inr (Inl err), w)) \<longleftrightarrow> \<not> opens env ''main''"
  "New c env \<noteq> Some (Inr (Inr s), w)"
  "New c env = Some (Inr (Inl err), w) \<Longrightarrow> open_dbs w = [] \<and> go_tasks w = []"
proof -
  let ?w0 = "\<lparr>open_dbs = [], go_tasks = [], wg = 0\<rparr>"
  show "(\<exists>err w. New c env = Some (Inr (Inl err), w)) \<longleftrightarrow> \<not> opens env ''main''"
  proof (cases "opens env ''main''")
    case False
    from newBadger_fails [OF this, of 268435456 "[]" None ?w0]
    show ?thesis using False by (auto simp: New_first_step)
  next
    case True
    from newBadger_opened [OF this, of 268435456 "[]" None ?w0]
    show ?thesis using True by (auto simp: New_first_step)
  qed
  show "New c env \<noteq> Some (Inr (Inr s), w)"
    by (auto simp: New_first_step split: option.splits sum.splits prod.splits)
  show "New c env = Some (Inr (Inl err), w) \<Longrightarrow> open_dbs w = [] \<and> go_tasks w = []"
  proof (cases "opens env ''main''")
    case False
    assume a: "New c env = Some (Inr (Inl err), w)"
    from newBadger_fails [OF False, of 268435456 "[]" None ?w0] a
    show ?thesis by (auto simp: New_first_step)
  next
    case True
    assume a: "New c env = Some (Inr (Inl err), w)"
    from newBadger_opened [OF True, of 268435456 "[]" None ?w0] a
    show ?thesis by (auto simp: New_first_step)
  qed
qed

lemma New_blocks:
  assumes "opens env ''main''" and "\<not> task_stopped env ''main''"
    and "StopSignal \<notin> set (task_selects env ''main'')"
  shows "New c env = None"
  using newBadger_blocks [OF assms, of 268435456 "[]" None "\<lparr>open_dbs = [], go_tasks = [], wg = 0\<rparr>"]
  by (simp add: New_first_step)


section \<open>Theorems about the maintenance mutex\<close>

text \<open>The invariant holds at the start and every step of a goroutine keeps it.\<close>

lemma mutex_inv_init: "mutex_inv tasks (sys_init tasks)"
  by (auto simp: mutex_inv_def sys_init_def)

lemma mutex_inv_Fire:
  assumes "mutex_inv tasks s" and "exec tasks (Fire i) s = Some s'"
  shows "mutex_inv tasks s'"
proof -
  from assms(2) have i: "i < length tasks" "pcs s ! i = AtSelect"
    and s': "s' = s\<lparr>pcs := (pcs s)[i := (if is_maintenance (tasks ! i) then AtLock else InTaskBody)]\<rparr>"
    by (simp_all split: if_splits)
  have body: "is_maintenance (tasks ! j) \<and> pcs s' ! j = InTaskBody
      \<Longrightarrow> pcs s ! j = InTaskBody" if "j < length tasks" for j
    using that assms(1) by (cases "j = i") (auto simp: s' mutex_inv_def split: if_splits)
  show ?thesis
    unfolding mutex_inv_def
  proof (intro conjI allI impI)
    show "length (pcs s') = length tasks" using assms(1) by (simp add: s' mutex_inv_def)
  next
    fix a b
    assume "a < length tasks \<and> b < length tasks
            \<and> is_maintenance (tasks ! a) \<and> is_maintenance (tasks ! b)
            \<and> pcs s' ! a = InTaskBody \<and> pcs s' ! b = InTaskBody"
    with body [of a] body [of b] assms(1) show "a = b" unfolding mutex_inv_def by blast
  next
    fix a
    assume "a < length tasks \<and> is_maintenance (tasks ! a) \<and> pcs s' ! a = InTaskBody"
    with body [of a] assms(1) have "maintenance s" unfolding mutex_inv_def by blast
    then show "maintenance s'" by (simp add: s')
  qed
qed

lemma mutex_inv_Acquire:
  assumes "mutex_inv tasks s" and "exec tasks (Acquire i) s = Some s'"
  shows "mutex_inv tasks s'"
proof -
  from assms(2) have i: "i < length tasks" "pcs s ! i = AtLock" "\<not> maintenance s"
    and s': "s' = s\<lparr>maintenance := True, pcs := (pcs s)[i := InTaskBody]\<rparr>"
    by (simp_all split: if_splits)
  from assms(1) i(3)
  have free: "\<not> (is_maintenance (tasks ! j) \<and> pcs s ! j = InTaskBody)" if "j < length tasks" for j
    using that unfolding mutex_inv_def by blast
  have only: "j = i" if "j < length tasks" "is_maintenance (tasks ! j)" "pcs s' ! j = InTaskBody" for j
  proof (rule ccontr)
    assume "j \<noteq> i"
    with that(3) have "pcs s ! j = InTaskBody" by (simp add: s')
    with free [OF that(1)] that(2) show False by simp
  qed
  show ?thesis
    unfolding mutex_inv_def
  proof (intro conjI allI impI)
    show "length (pcs s') = length tasks" using assms(1) by (simp add: s' mutex_inv_def)
  next
    fix a b
    assume "a < length tasks \<and> b < length tasks
            \<and> is_maintenance (tasks ! a) \<and> is_maintenance (tasks ! b)
            \<and> pcs s' ! a = InTaskBody \<and> pcs s' ! b = InTaskBody"
    with only [of a] only [of b] show "a = b" by simp
  next
    fix a
    show "maintenance s'" by (simp add: s')
  qed
qed

lemma mutex_inv_Return:
  assumes "mutex_inv tasks s" and "exec tasks (Return i) s = Some s'"
  shows "mutex_inv tasks s'"
proof -
  from assms(2) have i: "i < length tasks" "pcs s ! i = InTaskBody"
    and s': "s' = s\<lparr>maintenance := (if is_maintenance (tasks ! i) then False else maintenance s),
                   pcs := (pcs s)[i := AtSelect]\<rparr>"
    by (simp_all split: if_splits)
  from assms(1) have len: "length (pcs s) = length tasks" by (simp add: mutex_inv_def)
  have body: "pcs s ! j = InTaskBody \<and> j \<noteq> i" if "j < length tasks" "pcs s' ! j = InTaskBody" for j
    using that len by (cases "j = i") (simp_all add: s')
  show ?thesis
    unfolding mutex_inv_def
  proof (intro conjI allI impI)
    show "length (pcs s') = length tasks" using len by (simp add: s')
  next
    fix a b
    assume "a < length tasks \<and> b < length tasks
            \<and> is_maintenance (tasks ! a) \<and> is_maintenance (tasks ! b)
            \<and> pcs s' ! a = InTaskBody \<and> pcs s' ! b = InTaskBody"
    with body [of a] body [of b] assms(1) show "a = b" unfolding mutex_inv_def by blast
  next
    fix a
    assume a: "a < length tasks \<and> is_maintenance (tasks ! a) \<and> pcs s' ! a = InTaskBody"
    with body [of a] have a': "pcs s ! a = InTaskBody" "a \<noteq> i" by simp_all
    show "maintenance s'"
    proof (cases "is_maintenance (tasks ! i)")
      case True
      with a a' i assms(1) have "a = i" unfolding mutex_inv_def by blast
      with a' show ?thesis by simp
    next
      case False
      with a a' assms(1) have "maintenance s" unfolding mutex_inv_def by blast
      with False show ?thesis by (simp add: s')
    qed
  qed
qed

lemma mutex_inv_Quit:
  assumes "mutex_inv tasks s" and "exec tasks (Quit i) s = Some s'"
  shows "mutex_inv tasks s'"
proof -
  from assms(2) have i: "i < length tasks" "pcs s ! i = AtSelect"
    and s': "s' = s\<lparr>pcs := (pcs s)[i := Done]\<rparr>"
    by (simp_all split: if_splits)
  from assms(1) have len: "length (pcs s) = length tasks" by (simp add: mutex_inv_def)
  have body: "pcs s ! j = InTaskBody" if "j < length tasks" "pcs s' ! j = InTaskBody" for j
    using that len by (cases "j = i") (simp_all add: s')
  show ?thesis
    unfolding mutex_inv_def
  proof (intro conjI allI impI)
    show "length (pcs s') = length tasks" using len by (simp add: s')
  next
    fix a b
    assume "a < length tasks \<and> b < length tasks
            \<and> is_maintenance (tasks ! a) \<and> is_maintenance (tasks ! b)
            \<and> pcs s' ! a = InTaskBody \<and> pcs s' ! b = InTaskBody"
    with body [of a] body [of b] assms(1) show "a = b" unfolding mutex_inv_def by blast
  next
    fix a
    assume "a < length tasks \<and> is_maintenance (tasks ! a) \<and> pcs s' ! a = InTaskBody"
    with body [of a] assms(1) have "maintenance s" unfolding mutex_inv_def by blast
    then show "maintenance s'" by (simp add: s')
  qed
qed

lemma mutex_inv_exec:
  assumes "mutex_inv tasks s" and "exec tasks a s = Some s'"
  shows "mutex_inv tasks s'"
proof (cases a)
  case (Fire i)
  from mutex_inv_Fire [OF assms(1) assms(2) [unfolded Fire]] show ?thesis .
next
  case (Acquire i)
  from mutex_inv_Acquire [OF assms(1) assms(2) [unfolded Acquire]] show ?thesis .
next
  case (Return i)
  from mutex_inv_Return [OF assms(1) assms(2) [unfolded Return]] show ?thesis .
next
  case (Quit i)
  from mutex_inv_Quit [OF assms(1) assms(2) [unfolded Quit]] show ?thesis .
qed

lemma mutex_inv_run:
  "mutex_inv tasks s \<Longrightarrow> run tasks acts s = Some s' \<Longrightarrow> mutex_inv tasks s'"
proof (induction acts arbitrary: s)
  case Nil
  then show ?case by simp
next
  case (Cons a acts)
  from Cons.prems(2) obtain s1 where e: "exec tasks a s = Some s1" and r: "run tasks acts s1 = Some s'"
    by (auto split: option.splits)
  from Cons.IH [OF mutex_inv_exec [OF Cons.prems(1) e] r] show ?case .
qed

lemma distinct_all_equal_length:
  assumes "distinct xs" and "\<forall>x\<in>set xs. \<forall>y\<in>set xs. x = y"
  shows "length xs \<le> 1"
proof (cases xs)
  case Nil
  then show ?thesis by simp
next
  case (Cons x ys)
  show ?thesis
  proof (cases ys)
    case Nil
    with Cons show ?thesis by simp
  next
    case (Cons y zs)
    with \<open>xs = x # ys\<close> have xs: "xs = x # y # zs" by simp
    from assms(1) have "x \<noteq> y" by (simp add: xs)
    moreover have "x \<in> set xs" "y \<in> set xs" by (simp_all add: xs)
    with assms(2) have "x = y" by blast
    ultimately show ?thesis by (simp only: simp_thms)
  qed
qed

text \<open>
  Of the tasks started with \<open>maintenanceTask\<close>, whatever they are, at most one is inside
  its body in a state that the goroutines can reach.
\<close>

lemma in_maintenance_body_le_1:
  assumes "run tasks acts (sys_init tasks) = Some s"
  shows "length (in_maintenance_body tasks s) \<le> 1"
proof -
  from mutex_inv_run [OF mutex_inv_init assms]
  have one: "\<forall>i j. i < length tasks \<and> j < length tasks
            \<and> is_maintenance (tasks ! i) \<and> is_maintenance (tasks ! j)
            \<and> pcs s ! i = InTaskBody \<and> pcs s ! j = InTaskBody \<longrightarrow> i = j"
    by (simp add: mutex_inv_def)
  have d: "distinct (in_maintenance_body tasks s)" by (simp add: in_maintenance_body_def)
  have "\<forall>x\<in>set (in_maintenance_body tasks s). \<forall>y\<in>set (in_maintenance_body tasks s). x = y"
    using one by (auto simp: in_maintenance_body_def)
  with d show ?thesis by (rule distinct_all_equal_length)
qed

text \<open>
  Every task of a storage whose body counts as maintenance is started with
  \<open>maintenanceTask\<close>, and the metrics task is not.
\<close>

lemma storage_tasks_under_mutex:
  "t \<in> set (storage_tasks interval names memTotal) \<Longrightarrow>
   is_maintenance_body (task_body_of t) = is_maintenance t"
  by (auto simp: storage_tasks_def New_tasks_def newBadger_gc_task_def)

lemma maintenance_bodies_running_storage_tasks:
  "maintenance_bodies_running (storage_tasks interval names memTotal) s =
   in_maintenance_body (storage_tasks interval names memTotal) s"
  unfolding maintenance_bodies_running_def in_maintenance_body_def
proof (rule filter_cong)
  show "[0..<length (storage_tasks interval names memTotal)] =
      [0..<length (storage_tasks interval names memTotal)]" by (rule refl)
next
  fix x assume "x \<in> set [0..<length (storage_tasks interval names memTotal)]"
  then have "storage_tasks interval names memTotal ! x \<in> set (storage_tasks interval names memTotal)"
    by simp
  from storage_tasks_under_mutex [OF this]
  show "(is_maintenance_body (task_body_of (storage_tasks interval names memTotal ! x))
          \<and> pcs s ! x = InTaskBody) =
        (is_maintenance (storage_tasks interval names memTotal ! x) \<and> pcs s ! x = InTaskBody)"
    by simp
qed

text \<open>
  C9. Take the tasks of a storage: the GC task of each database that \<open>newBadger\<close> has
  opened and the four tasks that \<open>New\<close> starts. Whatever steps their goroutines have
  taken, at most one of them is inside a maintenance body (aggregate size-triggered GC,
  eviction, write-back, GC of one database), because each of these bodies is started
  with \<open>maintenanceTask\<close> and so runs between \<open>Lock()\<close> and \<open>Unlock()\<close> of the one mutex
  \<open>s.maintenance\<close>. The metrics refresh is started with \<open>periodicTask\<close> alone: the tasks
  of \<open>New\<close> reach a state in which the body of the metrics task and the body of the
  aggregate GC task run together.
\<close>

theorem maintenance_exclusive:
  "(run (storage_tasks interval names memTotal) acts
        (sys_init (storage_tasks interval names memTotal)) = Some s \<longrightarrow>
      length (maintenance_bodies_running (storage_tasks interval names memTotal) s) \<le> 1)
   \<and> (\<exists>acts s i j. run (New_tasks memTotal) acts (sys_init (New_tasks memTotal)) = Some s
        \<and> i < length (New_tasks memTotal) \<and> j < length (New_tasks memTotal)
        \<and> task_body_of (New_tasks memTotal ! i) = WatchDBSize \<and> pcs s ! i = InTaskBody
        \<and> task_body_of (New_tasks memTotal ! j) = UpdateMetricsTask \<and> pcs s ! j = InTaskBody)"
proof (intro conjI impI)
  assume "run (storage_tasks interval names memTotal) acts
        (sys_init (storage_tasks interval names memTotal)) = Some s"
  from in_maintenance_body_le_1 [OF this]
  show "length (maintenance_bodies_running (storage_tasks interval names memTotal) s) \<le> 1"
    by (simp only: maintenance_bodies_running_storage_tasks)
next
  let ?s = "\<lparr>maintenance = True, pcs = [InTaskBody, AtSelect, AtSelect, InTaskBody]\<rparr>"
  have "run (New_tasks memTotal) [Fire 0, Acquire 0, Fire 3] (sys_init (New_tasks memTotal)) = Some ?s
        \<and> 0 < length (New_tasks memTotal) \<and> 3 < length (New_tasks memTotal)
        \<and> task_body_of (New_tasks memTotal ! 0) = WatchDBSize \<and> pcs ?s ! 0 = InTaskBody
        \<and> task_body_of (New_tasks memTotal ! 3) = UpdateMetricsTask \<and> pcs ?s ! 3 = InTaskBody"
    by (simp add: New_tasks_def sys_init_def numeral_3_eq_3)
  then show "\<exists>acts s i j. run (New_tasks memTotal) acts (sys_init (New_tasks memTotal)) = Some s
        \<and> i < length (New_tasks memTotal) \<and> j < length (New_tasks memTotal)
        \<and> task_body_of (New_tasks memTotal ! i) = WatchDBSize \<and> pcs s ! i = InTaskBody
        \<and> task_body_of (New_tasks memTotal ! j) = UpdateMetricsTask \<and> pcs s ! j = InTaskBody"
    by blast
qed

text \<open>
  The GC task of the main database next to the four tasks of \<open>New\<close>: while its body
  runs, the aggregate GC task and the eviction task wait at \<open>Lock()\<close> and neither can
  acquire the mutex, and the metrics body runs.
\<close>

theorem maintenance_exclusive_witness:
  "run (storage_tasks 60000000000 [''main''] 1024)
      [Fire 0, Fire 1, Fire 2, Acquire 0, Fire 4]
      (sys_init (storage_tasks 60000000000 [''main''] 1024)) =
     Some \<lparr>maintenance = True, pcs = [InTaskBody, AtLock, AtLock, AtSelect, InTaskBody]\<rparr>
   \<and> length (maintenance_bodies_running (storage_tasks 60000000000 [''main''] 1024)
        \<lparr>maintenance = True, pcs = [InTaskBody, AtLock, AtLock, AtSelect, InTaskBody]\<rparr>) \<le> 1
   \<and> run (storage_tasks 60000000000 [''main''] 1024)
      [Fire 0, Fire 1, Fire 2, Acquire 0, Fire 4, Acquire 1]
      (sys_init (storage_tasks 60000000000 [''main''] 1024)) = None
   \<and> run (storage_tasks 60000000000 [''main''] 1024)
      [Fire 0, Fire 1, Fire 2, Acquire 0, Fire 4, Acquire 2]
      (sys_init (storage_tasks 60000000000 [''main''] 1024)) = None"
proof -
  let ?tasks = "storage_tasks 60000000000 [''main''] 1024"
  let ?s = "\<lparr>maintenance = True, pcs = [InTaskBody, AtLock, AtLock, AtSelect, InTaskBody]\<rparr>"
  have r: "run ?tasks [Fire 0, Fire 1, Fire 2, Acquire 0, Fire 4] (sys_init ?tasks) = Some ?s"
    by (simp add: storage_tasks_def newBadger_gc_task_def New_tasks_def sys_init_def eval_nat_numeral)
  from maintenance_exclusive [of 60000000000 "[''main'']" 1024
      "[Fire 0, Fire 1, Fire 2, Acquire 0, Fire 4]" ?s, THEN conjunct1, rule_format, OF r]
  have one: "length (maintenance_bodies_running ?tasks ?s) \<le> 1" .
  have b1: "run ?tasks [Fire 0, Fire 1, Fire 2, Acquire 0, Fire 4, Acquire 1] (sys_init ?tasks) = None"
    by (simp add: storage_tasks_def newBadger_gc_task_def New_tasks_def sys_init_def eval_nat_numeral)
  have b2: "run ?tasks [Fire 0, Fire 1, Fire 2, Acquire 0, Fire 4, Acquire 2] (sys_init ?tasks) = None"
    by (simp add: storage_tasks_def newBadger_gc_task_def New_tasks_def sys_init_def eval_nat_numeral)
  from r one b1 b2 show ?thesis by (intro conjI)
qed

end
